theory Spec2Isabelle
  imports
    Complex_Main
    "HOL-Library.Char_ord"
    "HOL-Library.List_Lexorder"
    "HOL-Library.Product_Lexorder"
    "HOL-Library.AList"
    "HOL-Library.Multiset"
    "HOL-Library.Word"
begin

unbundle bit_operations_syntax

section \<open>JavaScript values\<close>

text \<open>
  The backend is JavaScript: the verifier (\<open>verifier.js\<close>) and the job orchestrator
  (\<open>server.js\<close>) work on values that were parsed from JSON. A value is one of the six
  JSON shapes. An object is the list of its own properties in enumeration order (the order of
  \<open>Object.keys\<close> and of \<open>JSON.stringify\<close>). \<open>undefined\<close> is not a JSON value: the
  result of reading a property is a \<open>jsval option\<close>, \<open>None\<close> standing for \<open>undefined\<close>.
  Strings are lists of code units, here of 8-bit characters. Numbers are rationals (every finite
  double is one); the text that JavaScript prints for a number is floating-point formatting and
  is taken as a parameter \<open>nt\<close> (\<open>number_text\<close>) wherever a number is serialized.
\<close>

datatype jsval =
    JNull
  | JBool bool
  | JNum rat
  | JStr string
  | JArr "jsval list"
  | JObj "(string \<times> jsval) list"

text \<open>Truthiness, as \<open>!x\<close>, \<open>x && y\<close> and \<open>x || y\<close> test it.\<close>

fun truthy :: "jsval \<Rightarrow> bool" where
  "truthy JNull = False"
| "truthy (JBool b) = b"
| "truthy (JNum n) = (n \<noteq> 0)"
| "truthy (JStr s) = (s \<noteq> [])"
| "truthy (JArr xs) = True"
| "truthy (JObj kvs) = True"

fun truthy_opt :: "jsval option \<Rightarrow> bool" where
  "truthy_opt None = False"
| "truthy_opt (Some v) = truthy v"

text \<open>
  A field that holds a string or is absent (\<open>null\<close>, \<open>undefined\<close>): it is truthy when it
  holds a non-empty string.
\<close>

fun present :: "string option \<Rightarrow> bool" where
  "present None = False"
| "present (Some s) = (s \<noteq> [])"

text \<open>
  An exception: an \<open>Error\<close> object with its \<open>message\<close>, and for a failed HTTP request
  the \<open>response\<close> (status and body) that axios attaches.
\<close>

datatype js_error = Thrown (message: string) (response: "(nat \<times> jsval) option")

definition TypeError :: "string \<Rightarrow> js_error" where
  "TypeError m = Thrown m None"

text \<open>
  Reading a property \<open>v.k\<close>. On an object it is the own property; the names read by the code
  (\<open>quote\<close>, \<open>body\<close>, \<open>reportdata\<close>, \<open>verified\<close>, \<open>message\<close>, \<open>result\<close>, \<open>risk_metrics\<close>,
  \<open>privacy_budget\<close>, \<open>error\<close>, \<open>attestation\<close>) are no properties of arrays, strings, numbers
  or booleans, where the read gives \<open>undefined\<close>. Reading a property of \<open>null\<close> throws.
\<close>

fun get :: "jsval \<Rightarrow> string \<Rightarrow> jsval option" where
  "get (JObj kvs) k = map_of kvs k"
| "get v k = None"

fun member :: "jsval \<Rightarrow> string \<Rightarrow> js_error + jsval option" where
  "member JNull k =
     Inl (TypeError (''Cannot read properties of null (reading '' @ [CHR 0x27] @ k @ [CHR 0x27] @ '')''))"
| "member v k = Inr (get v k)"

text \<open>Optional chaining \<open>x?.k\<close>: \<open>undefined\<close> when \<open>x\<close> is \<open>null\<close> or \<open>undefined\<close>.\<close>

fun opt_chain :: "jsval option \<Rightarrow> string \<Rightarrow> jsval option" where
  "opt_chain None k = None"
| "opt_chain (Some JNull) k = None"
| "opt_chain (Some v) k = get v k"

text \<open>\<open>a || b\<close> on values that may be \<open>undefined\<close>.\<close>

definition or_else :: "jsval option \<Rightarrow> jsval option \<Rightarrow> jsval option" where
  "or_else a b = (if truthy_opt a then a else b)"

subsection \<open>Strings\<close>

definition startsWith :: "string \<Rightarrow> string \<Rightarrow> bool" where
  "startsWith s p = (take (length p) s = p)"

text \<open>\<open>s.startsWith('0x') ? s.slice(2) : s\<close>\<close>

definition strip0x :: "string \<Rightarrow> string" where
  "strip0x s = (if startsWith s ''0x'' then drop 2 s else s)"

text \<open>
  \<open>toLowerCase\<close> on the letters of ASCII, which is where addresses live; other characters are
  left as they are.
\<close>

definition toLowerCase_char :: "char \<Rightarrow> char" where
  "toLowerCase_char c =
     (case map_of (zip ''ABCDEFGHIJKLMNOPQRSTUVWXYZ'' ''abcdefghijklmnopqrstuvwxyz'') c of
        None \<Rightarrow> c
      | Some l \<Rightarrow> l)"

definition toLowerCase :: "string \<Rightarrow> string" where
  "toLowerCase s = map toLowerCase_char s"

definition hex_digit :: "nat \<Rightarrow> char" where
  "hex_digit n = ''0123456789abcdef'' ! (n mod 16)"

text \<open>Decimal text of a natural number, as in a template literal \<open>`${n}`\<close>.\<close>

function string_of_nat :: "nat \<Rightarrow> string" where
  "string_of_nat n =
     (if n < 10 then [hex_digit n] else string_of_nat (n div 10) @ [hex_digit (n mod 10)])"
  by pat_completeness auto
termination
  by (relation "measure id") auto

declare string_of_nat.simps [simp del]

definition parse_nat :: "string \<Rightarrow> nat" where
  "parse_nat s = foldl (\<lambda>a c. 10 * a + (of_char c - 48)) 0 s"

section \<open>Canonicalization of a result\<close>

text \<open>
  \<open>sortKeysRecursively\<close> builds a fresh object by assigning the properties in sorted key
  order, \<open>sorted[key] = ...\<close>. Two rules of property assignment on an ordinary object are part
  of what it computes:
  \<^item> an array index (a key \<open>k\<close> with \<open>String(Number(k)) = k\<close> below \<open>2^32 - 1\<close>) is enumerated
    before every other key, in ascending numeric order, whenever it was assigned;
  \<^item> assigning to \<open>__proto__\<close> runs the setter inherited from \<open>Object.prototype\<close> and creates
    no own property.
  Any other new key is appended; assigning to an existing key keeps its place.
\<close>

definition is_array_index :: "string \<Rightarrow> bool" where
  "is_array_index k = (string_of_nat (parse_nat k) = k \<and> parse_nat k < 4294967295)"

fun insert_index :: "string \<Rightarrow> jsval \<Rightarrow> (string \<times> jsval) list \<Rightarrow> (string \<times> jsval) list" where
  "insert_index k v [] = [(k, v)]"
| "insert_index k v (p # ps) =
     (if is_array_index (fst p) \<and> parse_nat (fst p) < parse_nat k
      then p # insert_index k v ps
      else (k, v) # p # ps)"

definition obj_set :: "(string \<times> jsval) list \<Rightarrow> string \<Rightarrow> jsval \<Rightarrow> (string \<times> jsval) list" where
  "obj_set kvs k v =
     (if k = ''__proto__'' then kvs
      else if k \<in> fst ` set kvs then AList.update k v kvs
      else if is_array_index k then insert_index k v kvs
      else kvs @ [(k, v)])"

text \<open>
  \<open>Object.keys(obj).sort()\<close> sorts the keys as strings (by code units);
  \<open>forEach\<close> assigns \<open>sorted[key] = sortKeysRecursively(obj[key])\<close> in that order.
\<close>

function sortKeysRecursively :: "jsval \<Rightarrow> jsval" where
  "sortKeysRecursively (JArr xs) = JArr (map sortKeysRecursively xs)"
| "sortKeysRecursively (JObj kvs) =
     JObj (fold (\<lambda>key sorted.
              case map_of kvs key of
                None \<Rightarrow> sorted
              | Some v \<Rightarrow> obj_set sorted key (sortKeysRecursively v))
            (sort (map fst kvs)) [])"
| "sortKeysRecursively JNull = JNull"
| "sortKeysRecursively (JBool b) = JBool b"
| "sortKeysRecursively (JNum n) = JNum n"
| "sortKeysRecursively (JStr s) = JStr s"
  by pat_completeness auto
termination
proof (relation "measure size")
  show "wf (measure size)" by simp
next
  fix xs :: "jsval list" and x
  assume "x \<in> set xs"
  then have "size x < Suc (size_list size xs)" by (induction xs) auto
  then show "(x, JArr xs) \<in> measure size" by simp
next
  fix kvs :: "(string \<times> jsval) list" and x x2
  assume "map_of kvs x = Some x2"
  then have "size x2 < Suc (size_list (size_prod (\<lambda>_. 0) size) kvs)"
    by (induction kvs) (auto split: if_splits)
  then show "(x2, JObj kvs) \<in> measure size" by simp
qed

text \<open>\<open>JSON.stringify\<close> without indentation: the compact serialization.\<close>

definition escape_char :: "char \<Rightarrow> string" where
  "escape_char c =
     (if c = CHR 0x22 then [CHR 0x5C, CHR 0x22]
      else if c = CHR 0x5C then [CHR 0x5C, CHR 0x5C]
      else if c = CHR 0x08 then [CHR 0x5C, CHR ''b'']
      else if c = CHR 0x0C then [CHR 0x5C, CHR ''f'']
      else if c = CHR 0x0A then [CHR 0x5C, CHR ''n'']
      else if c = CHR 0x0D then [CHR 0x5C, CHR ''r'']
      else if c = CHR 0x09 then [CHR 0x5C, CHR ''t'']
      else if (of_char c :: nat) < 32
        then [CHR 0x5C, CHR ''u'', CHR ''0'', CHR ''0'',
              hex_digit (of_char c div 16), hex_digit (of_char c mod 16)]
      else [c])"

definition quote_json :: "string \<Rightarrow> string" where
  "quote_json s = [CHR 0x22] @ concat (map escape_char s) @ [CHR 0x22]"

fun join :: "string \<Rightarrow> string list \<Rightarrow> string" where
  "join sep [] = []"
| "join sep [x] = x"
| "join sep (x # y # ys) = x @ sep @ join sep (y # ys)"

fun stringify :: "(rat \<Rightarrow> string) \<Rightarrow> jsval \<Rightarrow> string" where
  "stringify nt JNull = ''null''"
| "stringify nt (JBool b) = (if b then ''true'' else ''false'')"
| "stringify nt (JNum n) = nt n"
| "stringify nt (JStr s) = quote_json s"
| "stringify nt (JArr xs) = ''['' @ join '','' (map (stringify nt) xs) @ '']''"
| "stringify nt (JObj kvs) =
     ''{'' @ join '','' (map (\<lambda>(k, v). quote_json k @ '':'' @ stringify nt v) kvs) @ ''}''"

text \<open>
  The message that is signed and verified:
  \<open>JSON.stringify(sortKeysRecursively(analyticsResult))\<close>.
\<close>

definition canonicalize :: "(rat \<Rightarrow> string) \<Rightarrow> jsval \<Rightarrow> string" where
  "canonicalize nt x = stringify nt (sortKeysRecursively x)"

text \<open>
  Two values are equal up to key insertion order when one is obtained from the other by
  permuting the properties of objects, at any depth.
\<close>

inductive same_up_to_key_order :: "jsval \<Rightarrow> jsval \<Rightarrow> bool" where
  atom: "x = JNull \<or> x = JBool b \<or> x = JNum n \<or> x = JStr s \<Longrightarrow> same_up_to_key_order x x"
| arr: "list_all2 same_up_to_key_order xs ys \<Longrightarrow> same_up_to_key_order (JArr xs) (JArr ys)"
| obj: "list_all2 (\<lambda>p q. fst p = fst q \<and> same_up_to_key_order (snd p) (snd q)) a a' \<Longrightarrow>
        distinct (map fst a) \<Longrightarrow> mset a' = mset b \<Longrightarrow>
        same_up_to_key_order (JObj a) (JObj b)"

section \<open>Hex strings and buffers\<close>

type_synonym byte = "8 word"

definition hex_val :: "char \<Rightarrow> nat option" where
  "hex_val c =
     map_of (zip ''0123456789abcdefABCDEF''
                 [0, 1, 2, 3, 4, 5, 6, 7, 8, 9, 10, 11, 12, 13, 14, 15, 10, 11, 12, 13, 14, 15]) c"

text \<open>
  \<open>Buffer.from(s, 'hex')\<close>: two digits a byte, upper or lower case; decoding stops at the
  first pair that is not two hex digits, and a trailing single character is dropped.
\<close>

fun hex_decode :: "string \<Rightarrow> byte list" where
  "hex_decode (a # b # rest) =
     (case (hex_val a, hex_val b) of
        (Some x, Some y) \<Rightarrow> of_nat (16 * x + y) # hex_decode rest
      | _ \<Rightarrow> [])"
| "hex_decode s = []"

text \<open>\<open>buf.toString('hex')\<close>: two lower-case digits a byte.\<close>

definition hex_encode :: "byte list \<Rightarrow> string" where
  "hex_encode bs = concat (map (\<lambda>b. [hex_digit (unat b div 16), hex_digit (unat b mod 16)]) bs)"

text \<open>
  \<open>Buffer.alloc(32)\<close> followed by \<open>bytes.copy(padded, 0)\<close>: the bytes at the front of 32
  zero bytes, cut at 32.
\<close>

definition pad32 :: "byte list \<Rightarrow> byte list" where
  "pad32 bs = take 32 (bs @ replicate 32 0)"

text \<open>A string of lower-case hex digits, two a byte: what \<open>toString('hex')\<close> produces.\<close>

definition lower_hex :: "string \<Rightarrow> bool" where
  "lower_hex s = (list_all (\<lambda>c. c \<in> set ''0123456789abcdef'') s \<and> even (length s))"

section \<open>The attestation verifier\<close>

text \<open>
  The attestation bundle, with the fields the verifier reads. The quote, the address and the
  nonce are hex strings on the wire or absent, as the data model and the front end's interface
  declare them. (A value of another type there is posted to the oracle as it is, for the quote,
  or makes a string method throw inside a \<open>try\<close> block whose \<open>catch\<close> block does not touch
  it, for the address and the nonce.) The signature is any JSON value or absent: the \<open>catch\<close>
  block of \<open>verifyResultSignature\<close> calls a string method on it.
\<close>

record attestation =
  intel_quote :: "string option"
  signing_address :: "string option"
  signature :: "jsval option"
  nonce :: "string option"
  message_preview :: "string option"

text \<open>
  What the verifier calls outside the repository:
  \<^item> \<open>number_text\<close>: the text of a number in \<open>JSON.stringify\<close>;
  \<^item> \<open>verifyMessage\<close>: \<open>ethers.verifyMessage(message, signature)\<close>, which prefixes and hashes
    the message, recovers the public key and returns its address, or throws;
  \<^item> \<open>post_quote\<close>: \<open>axios.post(PHALA_TDX_VERIFIER_API, {hex: quote})\<close>, which resolves to a
    response whose \<open>data\<close> is returned here, or rejects (network failure, timeout, error
    status).
\<close>

record externals =
  number_text :: "rat \<Rightarrow> string"
  verifyMessage :: "string \<Rightarrow> string \<Rightarrow> js_error + string"
  post_quote :: "string \<Rightarrow> js_error + jsval"

subsection \<open>Intel TDX quote\<close>

record tdx_result =
  tdx_verified :: bool
  tdx_error :: "string option"
  tdx_intelResult :: "jsval option"
  tdx_message :: "jsval option"
  tdx_note :: "string option"

text \<open>The body of the \<open>try\<close> block of \<open>verifyTdxQuote\<close>.\<close>

definition verifyTdxQuote_try :: "externals \<Rightarrow> string \<Rightarrow> js_error + tdx_result" where
  "verifyTdxQuote_try env intelQuote =
     (case post_quote env intelQuote of
        Inl err \<Rightarrow> Inl err
      | Inr intelResult \<Rightarrow>
          (case member intelResult ''quote'' of
             Inl err \<Rightarrow> Inl err
           | Inr q \<Rightarrow>
               (let payload = (case q of None \<Rightarrow> JObj [] | Some v \<Rightarrow> if truthy v then v else JObj [])
                in Inr \<lparr> tdx_verified = (get payload ''verified'' = Some (JBool True)),
                         tdx_error = None,
                         tdx_intelResult = Some intelResult,
                         tdx_message = or_else (get payload ''message'') (get intelResult ''message''),
                         tdx_note = None \<rparr>)))"

definition verifyTdxQuote :: "externals \<Rightarrow> string option \<Rightarrow> tdx_result" where
  "verifyTdxQuote env intelQuote =
     (case intelQuote of
        None \<Rightarrow>
          \<lparr> tdx_verified = False,
            tdx_error = Some ''Intel quote is null (simulation mode - no TEE hardware)'',
            tdx_intelResult = None, tdx_message = None,
            tdx_note = Some ''TDX quote verification requires actual TEE hardware'' \<rparr>
      | Some q \<Rightarrow>
          if q = [] then
            \<lparr> tdx_verified = False,
              tdx_error = Some ''Intel quote is null (simulation mode - no TEE hardware)'',
              tdx_intelResult = None, tdx_message = None,
              tdx_note = Some ''TDX quote verification requires actual TEE hardware'' \<rparr>
          else
            (case verifyTdxQuote_try env q of
               Inr r \<Rightarrow> r
             | Inl err \<Rightarrow>
                 \<lparr> tdx_verified = False,
                   tdx_error = Some (message err),
                   tdx_intelResult = None, tdx_message = None,
                   tdx_note = Some ''TDX quote verification failed - may be in simulation mode'' \<rparr>))"

subsection \<open>Report data binding\<close>

record binding_result =
  bindsAddress :: bool
  embedsNonce :: bool
  binding_error :: "string option"
  embeddedAddress :: "string option"
  embeddedNonce :: "string option"
  expectedAddress :: "string option"
  expectedNonce :: "string option"

definition binding_failed :: "string \<Rightarrow> binding_result" where
  "binding_failed msg =
     \<lparr> bindsAddress = False, embedsNonce = False, binding_error = Some msg,
       embeddedAddress = None, embeddedNonce = None, expectedAddress = None, expectedNonce = None \<rparr>"

text \<open>
  The body of the \<open>try\<close> block of \<open>verifyReportDataBinding\<close>, given the truthy
  \<open>intelResult.quote\<close>. \<open>startsWith\<close> is a method of strings only: calling it on another
  value, or on the \<open>undefined\<close> of a missing signing address, throws.
\<close>

definition verifyReportDataBinding_try ::
    "attestation \<Rightarrow> string \<Rightarrow> jsval \<Rightarrow> js_error + binding_result" where
  "verifyReportDataBinding_try att requestNonce q =
     (let reportDataHex = opt_chain (get q ''body'') ''reportdata'' in
      if \<not> truthy_opt reportDataHex then Inr (binding_failed ''Report data not found in quote'')
      else
        (case reportDataHex of
           Some (JStr h) \<Rightarrow>
             (let reportData = hex_decode (strip0x h) in
              case signing_address att of
                None \<Rightarrow>
                  Inl (TypeError (''Cannot read properties of undefined (reading ''
                                  @ [CHR 0x27] @ ''startsWith'' @ [CHR 0x27] @ '')''))
              | Some signingAddress \<Rightarrow>
                  (let signingAddressBytes = hex_decode (strip0x signingAddress);
                       embAddress = take 32 reportData;
                       embNonce = take 32 (drop 32 reportData);
                       paddedAddress = pad32 signingAddressBytes;
                       embeddedNonceHex = hex_encode embNonce;
                       requestNonceHex = strip0x requestNonce
                   in Inr \<lparr> bindsAddress = (embAddress = paddedAddress),
                            embedsNonce = (embeddedNonceHex = requestNonceHex),
                            binding_error = None,
                            embeddedAddress = Some (hex_encode embAddress),
                            embeddedNonce = Some embeddedNonceHex,
                            expectedAddress = Some (hex_encode paddedAddress),
                            expectedNonce = Some requestNonceHex \<rparr>))
         | _ \<Rightarrow> Inl (TypeError ''reportDataHex.startsWith is not a function'')))"

text \<open>
  The first test stands before the \<open>try\<close>: an exception there would leave the function.
\<close>

definition verifyReportDataBinding ::
    "attestation \<Rightarrow> string \<Rightarrow> jsval \<Rightarrow> js_error + binding_result" where
  "verifyReportDataBinding att requestNonce intelResult =
     (if \<not> truthy intelResult then Inr (binding_failed ''Intel result missing'')
      else
        (case member intelResult ''quote'' of
           Inl err \<Rightarrow> Inl err
         | Inr q \<Rightarrow>
             (case q of
                None \<Rightarrow> Inr (binding_failed ''Intel result missing'')
              | Some qv \<Rightarrow>
                  if \<not> truthy qv then Inr (binding_failed ''Intel result missing'')
                  else
                    (case verifyReportDataBinding_try att requestNonce qv of
                       Inr r \<Rightarrow> Inr r
                     | Inl err \<Rightarrow> Inr (binding_failed (message err))))))"

subsection \<open>Result signature\<close>

record signature_result =
  sig_verified :: bool
  sig_error :: "string option"
  sig_note :: "string option"
  recoveredAddress :: "string option"
  sig_expectedAddress :: "string option"
  sig_message :: "string option"

text \<open>
  The backend passes \<open>{ result: analytics_result }\<close> or the analytics result itself:
  \<open>analyticsResult = (result && result.result) ? result.result : result\<close>.
\<close>

definition analyticsResult :: "jsval \<Rightarrow> jsval" where
  "analyticsResult result =
     (if truthy result then
        (case get result ''result'' of
           None \<Rightarrow> result
         | Some inner \<Rightarrow> if truthy inner then inner else result)
      else result)"

text \<open>
  The structure test passes when
  \<open>analyticsResult && (analyticsResult.risk_metrics || analyticsResult.privacy_budget)\<close>.
\<close>

definition has_result_structure :: "jsval \<Rightarrow> bool" where
  "has_result_structure a =
     (truthy a \<and> (truthy_opt (get a ''risk_metrics'') \<or> truthy_opt (get a ''privacy_budget'')))"

text \<open>\<open>signature.startsWith('0x') ? signature : `0x${signature}`\<close>\<close>

definition signatureWithPrefix :: "string \<Rightarrow> string" where
  "signatureWithPrefix sg = (if startsWith sg ''0x'' then sg else ''0x'' @ sg)"

text \<open>
  The body of the \<open>try\<close> block of \<open>verifyResultSignature\<close>. The two early returns are
  normal returns. The structure test returns before the signature is touched. \<open>startsWith\<close>
  is a method of strings only: on \<open>null\<close> the read of it throws, on any other value that is
  not a string the call does; after it only \<open>ethers.verifyMessage\<close> can throw. The logging
  calls (which read \<open>signature?.length\<close>), the fourth parameter \<open>attestation\<close> (read for
  logging only) and the SHA-256 of the \<open>messageHash\<close> field have no effect on the outcome and
  are left out.
\<close>

definition verifyResultSignature_try ::
    "externals \<Rightarrow> jsval \<Rightarrow> jsval \<Rightarrow> string \<Rightarrow> js_error + signature_result" where
  "verifyResultSignature_try env result sg signingAddress =
     (if \<not> has_result_structure (analyticsResult result) then
        Inr \<lparr> sig_verified = False,
              sig_error = Some ''Invalid result structure - missing risk_metrics or privacy_budget'',
              sig_note = None, recoveredAddress = None, sig_expectedAddress = None,
              sig_message = None \<rparr>
      else
        (let resultJson = canonicalize (number_text env) (analyticsResult result)
         in case sg of
              JStr s \<Rightarrow>
                (let withPrefix = signatureWithPrefix s
                 in if length withPrefix \<noteq> 132 then
                      Inr \<lparr> sig_verified = False,
                            sig_error = Some (''Invalid signature length: ''
                                              @ string_of_nat (length withPrefix) @ '' (expected 132)''),
                            sig_note = None, recoveredAddress = None, sig_expectedAddress = None,
                            sig_message = None \<rparr>
                    else
                      (case verifyMessage env resultJson withPrefix of
                         Inl err \<Rightarrow> Inl err
                       | Inr recovered \<Rightarrow>
                           (let verified = (toLowerCase recovered = toLowerCase signingAddress)
                            in Inr \<lparr> sig_verified = verified,
                                     sig_error = None,
                                     sig_note = None,
                                     recoveredAddress = Some recovered,
                                     sig_expectedAddress = Some signingAddress,
                                     sig_message = Some
                                       (if verified
                                        then ''Signature verified successfully - cryptographically proven''
                                        else ''Signature verification failed - recovered address ''
                                             @ recovered @ '' does not match expected ''
                                             @ signingAddress) \<rparr>)))
            | JNull \<Rightarrow>
                Inl (TypeError (''Cannot read properties of null (reading ''
                                @ [CHR 0x27] @ ''startsWith'' @ [CHR 0x27] @ '')''))
            | _ \<Rightarrow> Inl (TypeError ''signature.startsWith is not a function'')))"

text \<open>
  The \<open>catch\<close> block builds its answer from \<open>signature?.length\<close> and
  \<open>signature?.substring(0, 20)\<close>. The optional chaining covers \<open>null\<close> and
  \<open>undefined\<close> only: on a number, a boolean, an array or an object \<open>signature?.substring\<close>
  is \<open>undefined\<close> (or, for an object parsed from JSON that has such a property, a value that
  is no function) and the call throws out of the \<open>catch\<close> block, and so out of the function.
\<close>

definition verifyResultSignature ::
    "externals \<Rightarrow> jsval \<Rightarrow> jsval \<Rightarrow> string \<Rightarrow> js_error + signature_result" where
  "verifyResultSignature env result sg signingAddress =
     (case verifyResultSignature_try env result sg signingAddress of
        Inr r \<Rightarrow> Inr r
      | Inl err \<Rightarrow>
          (let caught =
                 \<lparr> sig_verified = False,
                   sig_error = Some (message err),
                   sig_note = Some ''Signature is invalid or malformed - cryptographic verification failed'',
                   recoveredAddress = None, sig_expectedAddress = None, sig_message = None \<rparr>
           in case sg of
                JStr s \<Rightarrow> Inr caught
              | JNull \<Rightarrow> Inr caught
              | _ \<Rightarrow> Inl (TypeError ''signature?.substring is not a function'')))"

subsection \<open>The overall verdict\<close>

record verification_results =
  tdxQuote :: tdx_result
  reportDataBinding :: "binding_result option"
  resultSignature :: signature_result
  overall :: bool

text \<open>
  \<open>verifyAttestation\<close> has no \<open>try\<close> of its own: an exception that leaves one of the three
  checks leaves it too (the promise it returns is rejected).
\<close>

definition verifyAttestation ::
    "externals \<Rightarrow> attestation \<Rightarrow> jsval \<Rightarrow> string option \<Rightarrow> js_error + verification_results" where
  "verifyAttestation env att result requestNonce =
     (let tdx =
            (if present (intel_quote att) then verifyTdxQuote env (intel_quote att)
             else \<lparr> tdx_verified = False, tdx_error = Some ''Intel quote missing'',
                    tdx_intelResult = None, tdx_message = None, tdx_note = None \<rparr>);
          binding =
            (case (tdx_intelResult tdx, requestNonce) of
               (Some intelResult, Some n) \<Rightarrow>
                 if truthy intelResult \<and> n \<noteq> []
                 then map_sum id Some (verifyReportDataBinding att n intelResult)
                 else Inr None
             | _ \<Rightarrow> Inr None)
      in case binding of
           Inl err \<Rightarrow> Inl err
         | Inr reportBinding \<Rightarrow>
             (case (case (signature att, signing_address att) of
                      (Some sg, Some addr) \<Rightarrow>
                        if truthy sg \<and> addr \<noteq> [] \<and> truthy result
                        then verifyResultSignature env result sg addr
                        else Inr \<lparr> sig_verified = False, sig_error = Some ''Missing signature components'',
                                   sig_note = None, recoveredAddress = None,
                                   sig_expectedAddress = None, sig_message = None \<rparr>
                    | _ \<Rightarrow> Inr \<lparr> sig_verified = False, sig_error = Some ''Missing signature components'',
                                 sig_note = None, recoveredAddress = None,
                                 sig_expectedAddress = None, sig_message = None \<rparr>) of
                Inl err \<Rightarrow> Inl err
              | Inr resSig \<Rightarrow>
                  (let hasValidSignature = sig_verified resSig;
                       hasValidTdxQuote = tdx_verified tdx
                   in Inr \<lparr> tdxQuote = tdx,
                            reportDataBinding = reportBinding,
                            resultSignature = resSig,
                            overall = (hasValidSignature \<and> (hasValidTdxQuote \<or> \<not> present (intel_quote att))) \<rparr>)))"

section \<open>The job orchestrator\<close>

datatype job_status = Pending | Processing | Completed | Failed

text \<open>
  The stored job. \<open>createdAt\<close> and \<open>completedAt\<close> are clock readings and are left out. A field
  that was never assigned, or that holds \<open>undefined\<close>, is \<open>None\<close>: neither appears in the
  JSON that \<open>GET /api/job/:jobId\<close> returns.
\<close>

record job =
  job_id :: string
  status :: job_status
  epsilon :: rat
  job_result :: "jsval option"
  job_attestation :: "jsval option"
  job_error :: "string option"

text \<open>
  What one call of the compute endpoint does: the connection fails (reset, TLS failure,
  timeout), or an HTTP response arrives with a status and a parsed body.
\<close>

datatype http_outcome = NetworkFailure string | HttpResponse nat jsval

text \<open>
  \<open>axios.post(.../analyze, ..., { validateStatus: (status) => status < 500 })\<close>: the promise
  resolves for every response below 500 and rejects otherwise.
\<close>

definition analyze_post :: "http_outcome \<Rightarrow> js_error + nat \<times> jsval" where
  "analyze_post out =
     (case out of
        NetworkFailure msg \<Rightarrow> Inl (Thrown msg None)
      | HttpResponse st body \<Rightarrow>
          if st < 500 then Inr (st, body)
          else Inl (Thrown (''Request failed with status code '' @ string_of_nat st) (Some (st, body))))"

definition maxRetries :: nat where
  "maxRetries = 5"

text \<open>\<open>Math.min(2000 * attempt, 10000)\<close>, in milliseconds.\<close>

definition retry_delay :: "nat \<Rightarrow> nat" where
  "retry_delay attempt = min (2000 * attempt) 10000"

text \<open>
  The retry loop \<open>for (let attempt = 1; attempt <= maxRetries; attempt++)\<close>. \<open>tee n\<close> is what
  the endpoint does on the \<open>n\<close>-th call. The loop ends by \<open>break\<close> with the response, by
  \<open>throw\<close> after the last attempt, or (when entered above \<open>maxRetries\<close>) with \<open>response\<close> still
  undefined. It returns how it ended, the number of calls made, and the delays waited.
\<close>

function retry_loop ::
    "(nat \<Rightarrow> http_outcome) \<Rightarrow> nat \<Rightarrow> nat list \<Rightarrow> (js_error + (nat \<times> jsval) option) \<times> nat \<times> nat list" where
  "retry_loop tee attempt waited =
     (if attempt \<le> maxRetries then
        (case analyze_post (tee attempt) of
           Inr resp \<Rightarrow> (Inr (Some resp), attempt, waited)
         | Inl err \<Rightarrow>
             if attempt < maxRetries
             then retry_loop tee (attempt + 1) (waited @ [retry_delay attempt])
             else (Inl err, attempt, waited))
      else (Inr None, attempt - 1, waited))"
  by pat_completeness auto
termination
  by (relation "measure (\<lambda>(tee, attempt, waited). Suc maxRetries - attempt)") auto

declare retry_loop.simps [simp del]

text \<open>
  The outer \<open>catch\<close> of \<open>processJob\<close>:
  \<open>errorMsg = error.response?.data?.error || error.response?.data || error.message\<close>, stored
  as it is when it is a string and through \<open>JSON.stringify\<close> otherwise.
\<close>

definition error_text :: "(rat \<Rightarrow> string) \<Rightarrow> js_error \<Rightarrow> string" where
  "error_text nt err =
     (let chosen =
            (case response err of
               None \<Rightarrow> None
             | Some (st, body) \<Rightarrow>
                 or_else (opt_chain (Some body) ''error'') (Some body))
      in if truthy_opt chosen then
           (case chosen of
              Some (JStr s) \<Rightarrow> s
            | Some v \<Rightarrow> stringify nt v
            | None \<Rightarrow> message err)
         else message err)"

definition job_failed :: "(rat \<Rightarrow> string) \<Rightarrow> job \<Rightarrow> js_error \<Rightarrow> job" where
  "job_failed nt j err = j\<lparr> status := Failed, job_error := Some (error_text nt err) \<rparr>"

text \<open>
  \<open>processJob\<close> on the job store. After the loop the job is marked completed and the result
  and attestation are read from \<open>response.data\<close>; an exception anywhere goes to the outer
  \<open>catch\<close>. The health probe before the loop swallows its own errors and changes nothing, and
  the endpoint URL is taken to be well formed (\<open>new URL(TEE_SERVICE_URL)\<close> does not throw). It
  returns the store, the number of compute calls and the delays.
\<close>

definition processJob ::
    "(rat \<Rightarrow> string) \<Rightarrow> (nat \<Rightarrow> http_outcome) \<Rightarrow> (string \<rightharpoonup> job) \<Rightarrow> string
       \<Rightarrow> (string \<rightharpoonup> job) \<times> nat \<times> nat list" where
  "processJob nt tee jobResults jobId =
     (case jobResults jobId of
        None \<Rightarrow> (jobResults, 0, [])
      | Some j0 \<Rightarrow>
          (let j = j0\<lparr> status := Processing \<rparr>;
               (ended, calls, waited) = retry_loop tee 1 [];
               final =
                 (case ended of
                    Inl err \<Rightarrow> job_failed nt j err
                  | Inr None \<Rightarrow>
                      job_failed nt j
                        (TypeError ''Cannot read properties of undefined (reading data)'')
                  | Inr (Some (st, body)) \<Rightarrow>
                      (case member body ''result'' of
                         Inl err \<Rightarrow> job_failed nt (j\<lparr> status := Completed \<rparr>) err
                       | Inr res \<Rightarrow>
                           j\<lparr> status := Completed,
                              job_result := res,
                              job_attestation := get body ''attestation'' \<rparr>))
           in (jobResults(jobId \<mapsto> final), calls, waited)))"

text \<open>
  \<open>POST /api/submit\<close>: a request without data is refused; otherwise a pending job is stored
  under a fresh identifier (\<open>epsilon || 1.0\<close>) and processed. \<open>processJob\<close> catches every
  exception itself, so the \<open>.catch\<close> handler attached to its call never runs; \<open>jobQueue\<close> is
  written and never read.
\<close>

definition submit ::
    "(rat \<Rightarrow> string) \<Rightarrow> (nat \<Rightarrow> http_outcome) \<Rightarrow> (string \<rightharpoonup> job) \<Rightarrow> string \<Rightarrow> jsval option
       \<Rightarrow> rat option \<Rightarrow> (string \<rightharpoonup> job) \<times> nat \<times> nat list" where
  "submit nt tee jobResults jobId reqData eps =
     (if \<not> truthy_opt reqData then (jobResults, 0, [])
      else
        (let fresh = \<lparr> job_id = jobId, status = Pending,
                       epsilon = (case eps of None \<Rightarrow> 1 | Some e \<Rightarrow> if e = 0 then 1 else e),
                       job_result = None, job_attestation = None, job_error = None \<rparr>
         in processJob nt tee (jobResults(jobId \<mapsto> fresh)) jobId))"

section \<open>Sample inputs\<close>

text \<open>
  Concrete inputs on which the definitions are evaluated below: an analytics result as the
  enclave returns it, an address and a signature of the right length, and a stand-in for the
  recovery of \<open>ethers.verifyMessage\<close> that yields the (checksummed) address for exactly this
  message and signature and throws otherwise.
\<close>

definition sample_result :: jsval where
  "sample_result =
     JObj [(''risk_metrics'', JObj [(''total_customers'', JNum 1), (''mean_risk'', JNum (2 / 5))]),
           (''privacy_budget'', JObj [(''epsilon_per_query'', JNum 1)])]"

definition sample_number_text :: "rat \<Rightarrow> string" where
  "sample_number_text n = (if n = 1 then ''1'' else if n = 2 / 5 then ''0.4'' else ''0'')"

definition sample_signature :: string where
  "sample_signature = replicate 130 (CHR ''1'')"

definition forged_signature :: string where
  "forged_signature = replicate 130 (CHR ''2'')"

definition sample_address :: string where
  "sample_address = ''0x52908400098527886e0f7030069857d2e4169ee7''"

definition sample_env :: externals where
  \<open>sample_env =
     \<lparr> number_text = sample_number_text,
       verifyMessage = (\<lambda>msg sg.
          if msg = ''{"privacy_budget":{"epsilon_per_query":1},"risk_metrics":{"mean_risk":0.4,"total_customers":1}}''
             \<and> sg = ''0x'' @ sample_signature
          then Inr ''0x52908400098527886E0F7030069857D2E4169EE7''
          else Inl (Thrown ''invalid signature'' None)),
       post_quote = (\<lambda>q. Inl (Thrown ''connect ECONNREFUSED'' None)) \<rparr>\<close>

definition sample_attestation :: attestation where
  "sample_attestation =
     \<lparr> intel_quote = None, signing_address = Some sample_address,
       signature = Some (JStr sample_signature), nonce = None, message_preview = None \<rparr>"



text \<open>
  A hardware attestation: a quote that the oracle verifies, whose report data are the padded
  signing address followed by the nonce; the same nonce in upper-case hex; and an attestation
  with a signature that is too short.
\<close>

definition sample_quote :: string where
  "sample_quote = ''040002008100000000000000939a7233f79c4ca9940a0db3957f0607''"

definition sample_nonce :: string where
  "sample_nonce = ''9f86d081884c7d659a2feaa0c55ad015a3bf4f1b2b0b822cd15d6c15b0f00a08''"

definition upper_nonce :: string where
  "upper_nonce = ''9F86D081884C7D659A2FEAA0C55AD015A3BF4F1B2B0B822CD15D6C15B0F00A08''"

definition sample_padded_address :: string where
  "sample_padded_address = ''52908400098527886e0f7030069857d2e4169ee7000000000000000000000000''"

definition sample_report_data :: string where
  "sample_report_data = sample_padded_address @ sample_nonce"

definition oracle_response :: jsval where
  "oracle_response =
     JObj [(''quote'', JObj [(''verified'', JBool True),
                            (''body'', JObj [(''reportdata'', JStr sample_report_data)])])]"

definition hardware_env :: externals where
  "hardware_env =
     sample_env\<lparr> post_quote := (\<lambda>q. if q = sample_quote then Inr oracle_response
                                     else Inl (Thrown ''Request failed with status code 400'' None)) \<rparr>"

definition hardware_attestation :: attestation where
  "hardware_attestation =
     sample_attestation\<lparr> intel_quote := Some sample_quote, nonce := Some sample_nonce \<rparr>"

definition broken_attestation :: attestation where
  "broken_attestation = hardware_attestation\<lparr> signature := Some (JStr ''0x1234'') \<rparr>"

text \<open>
  The sample attestation with a number where the signature should be, as in the JSON body
  \<open>{"signing_address": "0x5290...", "signature": 12345}\<close>.
\<close>

definition numeric_attestation :: attestation where
  "numeric_attestation = sample_attestation\<lparr> signature := Some (JNum 12345) \<rparr>"





text \<open>
  A pending job, a compute endpoint that fails four times (connection reset, TLS failure,
  timeout, 503) and then answers, and one that answers every call with status 400.
\<close>

definition pending_job :: job where
  "pending_job = \<lparr> job_id = ''5f3a9c0e1b7d4a62'', status = Pending, epsilon = 1,
                    job_result = None, job_attestation = None, job_error = None \<rparr>"

definition flaky_tee :: "nat \<Rightarrow> http_outcome" where
  "flaky_tee n =
     (if n = 1 then NetworkFailure ''read ECONNRESET''
      else if n = 2 then NetworkFailure ''Client network socket disconnected before secure TLS connection was established''
      else if n = 3 then NetworkFailure ''timeout of 120000ms exceeded''
      else if n = 4 then HttpResponse 503 (JStr ''Service Unavailable'')
      else HttpResponse 200 (JObj [(''result'', sample_result),
                                  (''attestation'', JObj [(''signing_address'', JStr sample_address)])]))"

definition rejecting_tee :: "nat \<Rightarrow> http_outcome" where
  "rejecting_tee n = HttpResponse 400 (JObj [(''error'', JStr ''Invalid request: missing data'')])"

section \<open>Auxiliary definitions\<close>

text \<open>
  The enumeration order of an object built by assignment: array indices by numeric value, then
  the other keys. \<open>js_rank\<close> maps a key to its place in that order.
\<close>

definition js_rank :: "string \<Rightarrow> nat \<times> nat \<times> string" where
  "js_rank k = (if is_array_index k then (0, parse_nat k, []) else (1, 0, k))"

definition js_ordered :: "(string \<times> jsval) list \<Rightarrow> bool" where
  "js_ordered kvs = sorted_wrt (<) (map (\<lambda>p. js_rank (fst p)) kvs)"

text \<open>The loop of \<open>sortKeysRecursively\<close> over the sorted keys, for any value map \<open>g\<close>.\<close>

definition build :: "(string \<Rightarrow> jsval option) \<Rightarrow> string list \<Rightarrow> (string \<times> jsval) list \<Rightarrow> (string \<times> jsval) list" where
  "build g ks acc = fold (\<lambda>key sorted. case g key of None \<Rightarrow> sorted | Some v \<Rightarrow> obj_set sorted key v) ks acc"

text \<open>The three steps of \<open>verifyAttestation\<close>, named.\<close>

definition quote_check :: "externals \<Rightarrow> attestation \<Rightarrow> tdx_result" where
  "quote_check env att =
     (if present (intel_quote att) then verifyTdxQuote env (intel_quote att)
      else \<lparr> tdx_verified = False, tdx_error = Some ''Intel quote missing'',
             tdx_intelResult = None, tdx_message = None, tdx_note = None \<rparr>)"

definition binding_check :: "externals \<Rightarrow> attestation \<Rightarrow> string option \<Rightarrow> binding_result option" where
  "binding_check env att n =
     (case (tdx_intelResult (quote_check env att), n) of
        (Some intelResult, Some n') \<Rightarrow>
          if truthy intelResult \<and> n' \<noteq> []
          then (case verifyReportDataBinding att n' intelResult of Inr b \<Rightarrow> Some b | Inl err \<Rightarrow> None)
          else None
      | _ \<Rightarrow> None)"

definition signature_check :: "externals \<Rightarrow> attestation \<Rightarrow> jsval \<Rightarrow> js_error + signature_result" where
  "signature_check env att result =
     (case (signature att, signing_address att) of
        (Some sg, Some addr) \<Rightarrow>
          if truthy sg \<and> addr \<noteq> [] \<and> truthy result
          then verifyResultSignature env result sg addr
          else Inr \<lparr> sig_verified = False, sig_error = Some ''Missing signature components'',
                     sig_note = None, recoveredAddress = None,
                     sig_expectedAddress = None, sig_message = None \<rparr>
      | _ \<Rightarrow> Inr \<lparr> sig_verified = False, sig_error = Some ''Missing signature components'',
                   sig_note = None, recoveredAddress = None,
                   sig_expectedAddress = None, sig_message = None \<rparr>)"

text \<open>
  A signature that is a string, or is not truthy (absent, \<open>null\<close>, \<open>false\<close>, \<open>0\<close>): what
  the signature check can take without leaving by an exception.
\<close>

fun string_or_falsy :: "jsval option \<Rightarrow> bool" where
  "string_or_falsy None = True"
| "string_or_falsy (Some (JStr s)) = True"
| "string_or_falsy (Some v) = (\<not> truthy v)"

text \<open>
  The message that is verified (\<open>resultJson\<close>), whether the recovery over a message and a
  signature yields the claimed address (up to case), and whether the signature check returns
  \<open>verified = true\<close>.
\<close>

definition resultJson :: "externals \<Rightarrow> jsval \<Rightarrow> string" where
  "resultJson env result = canonicalize (number_text env) (analyticsResult result)"








section \<open>Properties of the canonicalization\<close>

lemma js_rank_inj:
  assumes "js_rank a = js_rank b"
  shows "a = b"
proof (cases "is_array_index a")
  case True
  then have ib: "is_array_index b" and eq: "parse_nat a = parse_nat b"
    using assms by (auto simp: js_rank_def split: if_splits)
  have "a = string_of_nat (parse_nat a)" using True by (simp add: is_array_index_def)
  also have "\<dots> = b" using ib eq by (simp add: is_array_index_def)
  finally show ?thesis .
next
  case False
  then show ?thesis using assms by (auto simp: js_rank_def split: if_splits)
qed

lemma build_Nil [simp]: "build g [] acc = acc"
  by (simp add: build_def)

lemma build_Cons [simp]:
  "build g (k # ks) acc = build g ks (case g k of None \<Rightarrow> acc | Some v \<Rightarrow> obj_set acc k v)"
  by (simp add: build_def)

lemma sortKeys_obj:
  "sortKeysRecursively (JObj kvs) =
     JObj (build (\<lambda>k. map_option sortKeysRecursively (map_of kvs k)) (sort (map fst kvs)) [])"
proof -
  have "(\<lambda>key sorted. case map_of kvs key of None \<Rightarrow> sorted
                        | Some v \<Rightarrow> obj_set sorted key (sortKeysRecursively v))
      = (\<lambda>key sorted. case map_option sortKeysRecursively (map_of kvs key) of None \<Rightarrow> sorted
                        | Some v \<Rightarrow> obj_set sorted key v)"
    by (intro ext) (simp split: option.splits)
  then show ?thesis by (simp add: build_def)
qed

lemma map_of_insert_index:
  "k \<notin> fst ` set kvs \<Longrightarrow> map_of (insert_index k v kvs) = (map_of kvs)(k \<mapsto> v)"
  by (induction kvs) (auto simp: fun_eq_iff)

lemma keys_insert_index: "fst ` set (insert_index k v kvs) = insert k (fst ` set kvs)"
  by (induction kvs) auto

lemma map_of_snoc:
  "k \<notin> fst ` set kvs \<Longrightarrow> map_of (kvs @ [(k, v)]) = (map_of kvs)(k \<mapsto> v)"
  by (induction kvs) (auto simp: fun_eq_iff)

lemma map_of_obj_set:
  "map_of (obj_set kvs k v) = (if k = ''__proto__'' then map_of kvs else (map_of kvs)(k \<mapsto> v))"
  by (simp add: obj_set_def update_conv' map_of_insert_index map_of_snoc del: map_of_append)

lemma map_of_build:
  "map_of (build g ks acc) k =
     (if k \<in> set ks \<and> k \<noteq> ''__proto__'' \<and> g k \<noteq> None then g k else map_of acc k)"
  by (induction ks arbitrary: acc) (auto simp: map_of_obj_set split: option.splits)

lemma js_ordered_insert_index:
  "js_ordered kvs \<Longrightarrow> k \<notin> fst ` set kvs \<Longrightarrow> is_array_index k \<Longrightarrow> js_ordered (insert_index k v kvs)"
proof (induction kvs)
  case Nil
  then show ?case by (simp add: js_ordered_def)
next
  case (Cons p ps)
  have tail: "js_ordered ps" using Cons.prems(1) by (simp add: js_ordered_def)
  show ?case
  proof (cases "is_array_index (fst p) \<and> parse_nat (fst p) < parse_nat k")
    case True
    then have "js_rank (fst p) < js_rank k"
      using Cons.prems(3) by (simp add: js_rank_def)
    moreover have "js_ordered (insert_index k v ps)"
      using Cons.IH tail Cons.prems by simp
    moreover have "\<forall>q \<in> set ps. js_rank (fst p) < js_rank (fst q)"
      using Cons.prems(1) by (simp add: js_ordered_def)
    moreover have "\<forall>q \<in> set (insert_index k v ps). js_rank (fst p) < js_rank (fst q)"
    proof
      fix q assume "q \<in> set (insert_index k v ps)"
      then have "fst q \<in> insert k (fst ` set ps)"
        using keys_insert_index[of k v ps] by (metis imageI)
      then show "js_rank (fst p) < js_rank (fst q)"
        using calculation(1,3) by auto
    qed
    ultimately show ?thesis
      using True by (simp add: js_ordered_def)
  next
    case False
    have ne: "js_rank k \<noteq> js_rank (fst p)"
      using Cons.prems(2) js_rank_inj by auto
    have "js_rank k \<le> js_rank (fst p)"
      using False Cons.prems(3) by (auto simp: js_rank_def)
    with ne have lt: "js_rank k < js_rank (fst p)" by simp
    moreover have "\<forall>q \<in> set ps. js_rank (fst p) < js_rank (fst q)"
      using Cons.prems(1) by (simp add: js_ordered_def)
    ultimately have "\<forall>q \<in> set (p # ps). js_rank k < js_rank (fst q)"
      by (auto intro: less_trans)
    then show ?thesis using False Cons.prems(1) by (auto simp: js_ordered_def)
  qed
qed

lemma keys_update_mem: "k \<in> fst ` set kvs \<Longrightarrow> map fst (AList.update k v kvs) = map fst kvs"
  by (simp add: update_keys)

lemma js_ordered_obj_set:
  assumes "js_ordered kvs"
    and "\<forall>a \<in> fst ` set kvs. \<not> is_array_index a \<longrightarrow> a \<le> k"
  shows "js_ordered (obj_set kvs k v)"
proof -
  consider (proto) "k = ''__proto__''"
    | (upd) "k \<noteq> ''__proto__''" "k \<in> fst ` set kvs"
    | (idx) "k \<noteq> ''__proto__''" "k \<notin> fst ` set kvs" "is_array_index k"
    | (app) "k \<noteq> ''__proto__''" "k \<notin> fst ` set kvs" "\<not> is_array_index k"
    by blast
  then show ?thesis
  proof cases
    case proto
    then show ?thesis using assms(1) by (simp add: obj_set_def)
  next
    case upd
    have "map (\<lambda>p. js_rank (fst p)) (AList.update k v kvs) = map js_rank (map fst (AList.update k v kvs))"
      by simp
    also have "\<dots> = map js_rank (map fst kvs)" using upd(2) by (simp only: keys_update_mem)
    finally show ?thesis using assms(1) upd by (simp add: obj_set_def js_ordered_def comp_def)
  next
    case idx
    then show ?thesis using assms(1) by (simp add: obj_set_def js_ordered_insert_index)
  next
    case app
    have "\<forall>q \<in> set kvs. js_rank (fst q) < js_rank k"
    proof
      fix q assume q: "q \<in> set kvs"
      show "js_rank (fst q) < js_rank k"
      proof (cases "is_array_index (fst q)")
        case True
        then show ?thesis using app(3) by (simp add: js_rank_def)
      next
        case False
        then have "fst q \<le> k" using assms(2) q by auto
        moreover have "fst q \<noteq> k" using app(2) q by auto
        ultimately show ?thesis using False app(3) by (simp add: js_rank_def)
      qed
    qed
    then show ?thesis using assms(1) app
      by (simp add: obj_set_def js_ordered_def sorted_wrt_append)
  qed
qed

lemma keys_update: "fst ` set (AList.update k v kvs) = insert k (fst ` set kvs)"
  by (induction kvs) auto

lemma keys_obj_set: "fst ` set (obj_set kvs k v) \<subseteq> insert k (fst ` set kvs)"
  unfolding obj_set_def by (simp add: keys_insert_index keys_update subset_insertI)


lemma js_ordered_build:
  assumes "sorted ks" and "js_ordered acc"
    and "\<forall>a \<in> fst ` set acc. \<not> is_array_index a \<longrightarrow> (\<forall>k \<in> set ks. a \<le> k)"
  shows "js_ordered (build g ks acc)"
  using assms
proof (induction ks arbitrary: acc)
  case Nil
  then show ?case by simp
next
  case (Cons k ks)
  let ?acc' = "case g k of None \<Rightarrow> acc | Some v \<Rightarrow> obj_set acc k v"
  have sorted_tl: "sorted ks" and k_min: "\<forall>k' \<in> set ks. k \<le> k'"
    using Cons.prems(1) by simp_all
  have ord: "js_ordered ?acc'"
  proof (cases "g k")
    case None
    then show ?thesis using Cons.prems(2) by simp
  next
    case (Some v)
    have "\<forall>a \<in> fst ` set acc. \<not> is_array_index a \<longrightarrow> a \<le> k"
      using Cons.prems(3) by simp
    then show ?thesis using Some Cons.prems(2) by (simp add: js_ordered_obj_set)
  qed
  have keys: "fst ` set ?acc' \<subseteq> insert k (fst ` set acc)"
    using keys_obj_set by (cases "g k") auto
  have inv: "\<forall>a \<in> fst ` set ?acc'. \<not> is_array_index a \<longrightarrow> (\<forall>k' \<in> set ks. a \<le> k')"
  proof (intro ballI impI)
    fix a k' assume a: "a \<in> fst ` set ?acc'" "\<not> is_array_index a" and k': "k' \<in> set ks"
    from a(1) keys have "a = k \<or> a \<in> fst ` set acc" by blast
    then show "a \<le> k'"
    proof
      assume "a = k" then show ?thesis using k_min k' by simp
    next
      assume "a \<in> fst ` set acc"
      moreover have "k' \<in> set (k # ks)" using k' by simp
      ultimately show ?thesis using Cons.prems(3) a(2) by blast
    qed
  qed
  show ?case using Cons.IH[OF sorted_tl ord inv] by simp
qed

lemma alist_by_keys:
  "distinct (map fst kvs) \<Longrightarrow> map (\<lambda>k. (k, the (map_of kvs k))) (map fst kvs) = kvs"
proof (induction kvs)
  case Nil
  then show ?case by simp
next
  case (Cons p ps)
  obtain a b where p: "p = (a, b)" by (cases p)
  have fresh: "a \<notin> set (map fst ps)" and dist: "distinct (map fst ps)"
    using Cons.prems p by simp_all
  have "map_of (p # ps) k = map_of ps k" if "k \<in> set (map fst ps)" for k
    using fresh that p by auto
  then have "map (\<lambda>k. (k, the (map_of (p # ps) k))) (map fst ps)
      = map (\<lambda>k. (k, the (map_of ps k))) (map fst ps)"
    by (intro map_cong) simp_all
  also have "\<dots> = ps" using Cons.IH dist by blast
  finally have tl: "map (\<lambda>k. (k, the (map_of (p # ps) k))) (map fst ps) = ps" .
  have hd_val: "the (map_of (p # ps) a) = b" using p by simp
  have "map (\<lambda>k. (k, the (map_of (p # ps) k))) (map fst (p # ps))
      = (a, the (map_of (p # ps) a)) # map (\<lambda>k. (k, the (map_of (p # ps) k))) (map fst ps)"
    using p by simp
  also have "\<dots> = (a, b) # ps" by (simp only: tl hd_val)
  finally show ?case by (simp only: p)
qed

lemma js_ordered_distinct:
  assumes "js_ordered kvs"
  shows "distinct (map fst kvs)"
proof -
  have "map (\<lambda>p. js_rank (fst p)) kvs = map js_rank (map fst kvs)" by simp
  then have "sorted_wrt (<) (map js_rank (map fst kvs))"
    using assms by (simp only: js_ordered_def)
  then have "distinct (map js_rank (map fst kvs))"
    by (simp only: strict_sorted_iff)
  then show ?thesis
    by (simp only: distinct_map[of js_rank "map fst kvs"])
qed

lemma js_ordered_unique:
  assumes "js_ordered xs" and "js_ordered ys" and "map_of xs = map_of ys"
  shows "xs = ys"
proof -
  have "fst ` set xs = fst ` set ys"
    using assms(3) by (metis dom_map_of_conv_image_fst)
  then have "js_rank ` (fst ` set ys) = js_rank ` (fst ` set xs)"
    by (simp only:)
  then have "set (map js_rank (map fst ys)) = set (map js_rank (map fst xs))"
    by (simp only: set_map)
  moreover have "sorted_wrt (<) (map js_rank (map fst xs))" "sorted_wrt (<) (map js_rank (map fst ys))"
    using assms(1,2) by (simp_all add: js_ordered_def comp_def)
  ultimately have "map js_rank (map fst ys) = map js_rank (map fst xs)"
    by (intro strict_sorted_equal)
  moreover have "inj js_rank" by (rule injI) (rule js_rank_inj)
  ultimately have keys: "map fst ys = map fst xs" by (simp only: inj_map_eq_map)
  have "xs = map (\<lambda>k. (k, the (map_of xs k))) (map fst xs)"
    using assms(1) by (simp only: alist_by_keys js_ordered_distinct)
  also have "\<dots> = map (\<lambda>k. (k, the (map_of ys k))) (map fst ys)"
    by (simp only: keys assms(3))
  also have "\<dots> = ys"
    using assms(2) by (simp only: alist_by_keys js_ordered_distinct)
  finally show ?thesis .
qed

lemma js_ordered_sortKeys_build: "js_ordered (build g (sort ks) [])"
  by (rule js_ordered_build) (simp_all add: js_ordered_def)

lemma map_of_sortKeys_build:
  "map_of (build (\<lambda>k. map_option f (map_of kvs k)) (sort (map fst kvs)) []) k =
     (if k = ''__proto__'' then None else map_option f (map_of kvs k))"
  by (auto simp: map_of_build map_of_eq_None_iff)

lemma sortKeysRecursively_idem: "sortKeysRecursively (sortKeysRecursively x) = sortKeysRecursively x"
proof (induction x rule: sortKeysRecursively.induct)
  case (1 xs)
  then show ?case by (simp add: comp_def cong: map_cong)
next
  case (2 kvs)
  let ?g = "\<lambda>k. map_option sortKeysRecursively (map_of kvs k)"
  let ?R = "build ?g (sort (map fst kvs)) []"
  let ?g' = "\<lambda>k. map_option sortKeysRecursively (map_of ?R k)"
  let ?R' = "build ?g' (sort (map fst ?R)) []"
  have IH: "sortKeysRecursively (sortKeysRecursively v) = sortKeysRecursively v"
    if "map_of kvs k = Some v" for k v
  proof -
    have "(k, v) \<in> set kvs" using that by (rule map_of_SomeD)
    then have "k \<in> fst ` set kvs" by force
    then have "k \<in> set (sort (map fst kvs))" by simp
    then show ?thesis using "2" that by blast
  qed
  have "map_of ?R' = map_of ?R"
  proof
    fix k
    have R: "map_of ?R k = (if k = ''__proto__'' then None else ?g k)"
      by (rule map_of_sortKeys_build)
    have "map_of ?R' k = (if k = ''__proto__'' then None else ?g' k)"
      by (rule map_of_sortKeys_build)
    also have "\<dots> = (if k = ''__proto__'' then None else map_option sortKeysRecursively (?g k))"
      by (simp only: R if_False cong: if_cong)
    also have "\<dots> = (if k = ''__proto__'' then None else ?g k)"
      by (cases "map_of kvs k") (simp_all add: IH)
    finally show "map_of ?R' k = map_of ?R k" by (simp only: R)
  qed
  then have "?R' = ?R"
    by (intro js_ordered_unique js_ordered_sortKeys_build)
  then show ?case by (simp only: sortKeys_obj)
qed simp_all

lemma map_of_pointwise:
  "list_all2 (\<lambda>p q. fst p = fst q \<and> f (snd p) = f (snd q)) a a' \<Longrightarrow>
     map_option f (map_of a k) = map_option f (map_of a' k)"
  by (induction a a' rule: list_all2_induct) auto

lemma keys_pointwise:
  "list_all2 (\<lambda>p q. fst p = fst q \<and> P p q) a a' \<Longrightarrow> map fst a = map fst a'"
  by (induction a a' rule: list_all2_induct) auto

lemma sortKeys_key_order:
  "same_up_to_key_order x y \<Longrightarrow> sortKeysRecursively x = sortKeysRecursively y"
proof (induction rule: same_up_to_key_order.induct)
  case (atom x b n s)
  then show ?case by simp
next
  case (arr xs ys)
  then have "map sortKeysRecursively xs = map sortKeysRecursively ys"
    by (induction xs ys rule: list_all2_induct) auto
  then show ?case by simp
next
  case (obj a a' b)
  have keys: "map fst a = map fst a'"
    using obj(1) by (rule keys_pointwise)
  have vals: "map_option sortKeysRecursively (map_of a k) = map_option sortKeysRecursively (map_of a' k)" for k
    using obj(1) by (intro map_of_pointwise) (simp add: list_all2_conv_all_nth)
  have "distinct (map fst a')" using keys obj(2) by simp
  moreover have "mset (map fst a') = mset (map fst b)" using obj(3) by (metis mset_map)
  then have "distinct (map fst b)"
    using calculation by (simp only: mset_eq_imp_distinct_iff[of "map fst a'" "map fst b"])
  moreover have "set a' = set b" using obj(3) by (rule mset_eq_setD)
  ultimately have maps: "map_of a' = map_of b" by (simp add: map_of_inject_set)
  have "mset (map fst b) = mset (map fst a)" using keys obj(3) by (metis mset_map)
  then have "mset (sort (map fst b)) = mset (map fst a)" by simp
  then have sorted_keys: "sort (map fst a) = sort (map fst b)"
    by (rule properties_for_sort) simp
  show ?case by (simp only: sortKeys_obj sorted_keys vals maps)
qed

text \<open>
  C6. The canonicalization is idempotent in its sorting step: a key-sorted value is a fixed
  point of \<open>sortKeysRecursively\<close>, so canonicalizing the key-sorted form of a value gives the
  same byte string as canonicalizing the value. It does not depend on insertion order: two
  values that are equal up to the order of object keys have the same canonical byte string.
\<close>

theorem canonicalize_idempotent_order_independent:
  "sortKeysRecursively (sortKeysRecursively x) = sortKeysRecursively x
   \<and> canonicalize nt (sortKeysRecursively x) = canonicalize nt x
   \<and> (same_up_to_key_order x y \<longrightarrow> canonicalize nt x = canonicalize nt y)"
  by (simp add: canonicalize_def sortKeysRecursively_idem sortKeys_key_order)

lemma example_same_up_to_key_order:
  "same_up_to_key_order
     (JObj [(''b'', JNum 1), (''a'', JObj [(''z'', JNull), (''10'', JBool True), (''9'', JStr ''x'')])])
     (JObj [(''a'', JObj [(''9'', JStr ''x''), (''z'', JNull), (''10'', JBool True)]), (''b'', JNum 1)])"
proof -
  have atoms: "same_up_to_key_order (JNum 1) (JNum 1)" "same_up_to_key_order JNull JNull"
     "same_up_to_key_order (JBool True) (JBool True)" "same_up_to_key_order (JStr ''x'') (JStr ''x'')"
    by (auto intro: same_up_to_key_order.atom)
  have inner: "same_up_to_key_order
      (JObj [(''z'', JNull), (''10'', JBool True), (''9'', JStr ''x'')])
      (JObj [(''9'', JStr ''x''), (''z'', JNull), (''10'', JBool True)])"
    by (rule same_up_to_key_order.obj
          [where a' = "[(''z'', JNull), (''10'', JBool True), (''9'', JStr ''x'')]"])
       (simp_all add: atoms)
  show ?thesis
    by (rule same_up_to_key_order.obj
          [where a' = "[(''b'', JNum 1),
                        (''a'', JObj [(''9'', JStr ''x''), (''z'', JNull), (''10'', JBool True)])]"])
       (simp_all add: atoms inner)
qed

lemma example_canonical_text:
  \<open>canonicalize (\<lambda>n. ''1'')
     (JObj [(''b'', JNum 1), (''a'', JObj [(''z'', JNull), (''10'', JBool True), (''9'', JStr ''x'')])])
   = ''{"a":{"9":"x","10":true,"z":null},"b":1}''\<close>
  by (simp add: canonicalize_def obj_set_def is_array_index_def parse_nat_def string_of_nat.simps
        quote_json_def escape_char_def hex_digit_def)

theorem canonicalize_idempotent_order_independent_witness:
  \<open>same_up_to_key_order
     (JObj [(''b'', JNum 1), (''a'', JObj [(''z'', JNull), (''10'', JBool True), (''9'', JStr ''x'')])])
     (JObj [(''a'', JObj [(''9'', JStr ''x''), (''z'', JNull), (''10'', JBool True)]), (''b'', JNum 1)])
   \<and> canonicalize (\<lambda>n. ''1'')
       (JObj [(''a'', JObj [(''9'', JStr ''x''), (''z'', JNull), (''10'', JBool True)]), (''b'', JNum 1)])
     = ''{"a":{"9":"x","10":true,"z":null},"b":1}''\<close>
  using canonicalize_idempotent_order_independent
    [of "JObj [(''b'', JNum 1), (''a'', JObj [(''z'', JNull), (''10'', JBool True), (''9'', JStr ''x'')])]"
        "\<lambda>n. ''1''"
        "JObj [(''a'', JObj [(''9'', JStr ''x''), (''z'', JNull), (''10'', JBool True)]), (''b'', JNum 1)]"]
    example_same_up_to_key_order example_canonical_text
  by simp

text \<open>
  The canonicalization applied to its own output: the output is a string, and the canonical
  text of a string is the string in quotes (with the quotes inside it escaped). So
  \<open>canonicalize(canonicalize(x))\<close> is not \<open>canonicalize(x)\<close>, for \<open>null\<close> and for the sample
  result.
\<close>

theorem canonicalize_twice_counterexample:
  \<open>canonicalize sample_number_text JNull = ''null''
   \<and> canonicalize sample_number_text (JStr (canonicalize sample_number_text JNull)) = ''"null"''
   \<and> canonicalize sample_number_text (JStr (canonicalize sample_number_text sample_result))
       \<noteq> canonicalize sample_number_text sample_result\<close>
proof -
  have c: \<open>canonicalize sample_number_text sample_result =
     ''{"privacy_budget":{"epsilon_per_query":1},"risk_metrics":{"mean_risk":0.4,"total_customers":1}}''\<close>
    by (simp add: sample_result_def sample_number_text_def
        canonicalize_def obj_set_def is_array_index_def parse_nat_def string_of_nat.simps
        quote_json_def escape_char_def hex_digit_def)
  have q: "hd (canonicalize sample_number_text (JStr s)) = CHR 0x22" for s
    by (simp add: canonicalize_def quote_json_def)
  have "hd (canonicalize sample_number_text sample_result) \<noteq> CHR 0x22"
    unfolding c by simp
  then have "canonicalize sample_number_text (JStr (canonicalize sample_number_text sample_result))
       \<noteq> canonicalize sample_number_text sample_result"
    using q by metis
  moreover have \<open>canonicalize sample_number_text JNull = ''null''\<close>
    by (simp add: canonicalize_def)
  moreover have \<open>canonicalize sample_number_text (JStr ''null'') = ''"null"''\<close>
    by (simp add: canonicalize_def quote_json_def escape_char_def)
  ultimately show ?thesis by simp
qed

section \<open>Properties of the verifier\<close>

subsection \<open>The verdict\<close>

lemma member_truthy: "truthy v \<Longrightarrow> member v k = Inr (get v k)"
  by (cases v) simp_all

lemma verifyReportDataBinding_returns:
  "\<exists>r. verifyReportDataBinding att n intelResult = Inr r"
  by (auto simp: verifyReportDataBinding_def member_truthy split: option.splits sum.splits)

lemma verifyAttestation_eq:
  "verifyAttestation env att result n =
     (case signature_check env att result of
        Inl err \<Rightarrow> Inl err
      | Inr rs \<Rightarrow>
          Inr \<lparr> tdxQuote = quote_check env att,
                reportDataBinding = binding_check env att n,
                resultSignature = rs,
                overall = (sig_verified rs
                           \<and> (tdx_verified (quote_check env att) \<or> \<not> present (intel_quote att))) \<rparr>)"
proof -
  let ?tdx = "quote_check env att"
  let ?binding = "case (tdx_intelResult ?tdx, n) of
               (Some intelResult, Some n') \<Rightarrow>
                 if truthy intelResult \<and> n' \<noteq> []
                 then map_sum id Some (verifyReportDataBinding att n' intelResult)
                 else Inr None
             | _ \<Rightarrow> Inr None"
  have b: "?binding = Inr (binding_check env att n)"
  proof (cases "tdx_intelResult ?tdx")
    case None
    then show ?thesis by (simp add: binding_check_def)
  next
    case (Some ir)
    show ?thesis
    proof (cases n)
      case None
      then show ?thesis using Some by (simp add: binding_check_def)
    next
      case (Some n')
      obtain r where "verifyReportDataBinding att n' ir = Inr r"
        using verifyReportDataBinding_returns by blast
      then show ?thesis using Some \<open>tdx_intelResult ?tdx = Some ir\<close>
        by (simp add: binding_check_def)
    qed
  qed
  show ?thesis
    unfolding verifyAttestation_def Let_def quote_check_def[symmetric] signature_check_def[symmetric]
    by (simp only: b sum.case)
qed

lemma verifyAttestation_result:
  assumes "verifyAttestation env att result n = Inr r"
  shows "signature_check env att result = Inr (resultSignature r)"
    and "tdxQuote r = quote_check env att"
    and "reportDataBinding r = binding_check env att n"
    and "overall r = (sig_verified (resultSignature r)
                      \<and> (tdx_verified (quote_check env att) \<or> \<not> present (intel_quote att)))"
  using assms by (auto simp: verifyAttestation_eq split: sum.splits)

lemma string_signature_returns:
  "\<exists>r. verifyResultSignature env result (JStr s) addr = Inr r"
  by (auto simp: verifyResultSignature_def verifyResultSignature_try_def Let_def split: sum.splits)

lemma signature_check_returns:
  assumes "string_or_falsy (signature att)"
  shows "\<exists>rs. signature_check env att result = Inr rs"
proof (cases "signature att")
  case None
  then show ?thesis by (simp add: signature_check_def)
next
  case (Some v)
  show ?thesis
  proof (cases "\<exists>s. v = JStr s")
    case True
    then obtain s where "v = JStr s" by blast
    then show ?thesis
      using Some string_signature_returns[of env result s]
      by (auto simp: signature_check_def split: option.splits)
  next
    case False
    then have "\<not> truthy v" using assms Some by (cases v) simp_all
    then show ?thesis using Some by (simp add: signature_check_def split: option.splits)
  qed
qed

lemma verifyAttestation_returns:
  assumes "string_or_falsy (signature att)"
  shows "\<exists>r. verifyAttestation env att result n = Inr r"
  using signature_check_returns[OF assms, of env result] by (auto simp: verifyAttestation_eq)

lemma quote_check_ignores_signature [simp]:
  "quote_check env (att\<lparr> signature := sg' \<rparr>) = quote_check env att"
  by (simp add: quote_check_def)

lemma binding_ignores_signature [simp]:
  "verifyReportDataBinding (att\<lparr> signature := sg' \<rparr>) n ir = verifyReportDataBinding att n ir"
proof -
  have "verifyReportDataBinding_try (att\<lparr> signature := sg' \<rparr>) n q = verifyReportDataBinding_try att n q" for q
    by (simp add: verifyReportDataBinding_try_def Let_def
          cong: option.case_cong jsval.case_cong if_cong)
  then show ?thesis
    by (simp add: verifyReportDataBinding_def cong: sum.case_cong option.case_cong if_cong)
qed

lemma binding_check_ignores_signature [simp]:
  "binding_check env (att\<lparr> signature := sg' \<rparr>) n = binding_check env att n"
  by (simp add: binding_check_def cong: sum.case_cong option.case_cong if_cong)

lemma signature_check_ignores_oracle [simp]:
  "signature_check (env\<lparr> post_quote := p' \<rparr>) att result = signature_check env att result"
proof -
  have "verifyResultSignature (env\<lparr> post_quote := p' \<rparr>) result sg addr = verifyResultSignature env result sg addr" for sg addr
    by (simp add: verifyResultSignature_def verifyResultSignature_try_def Let_def
          cong: sum.case_cong jsval.case_cong if_cong)
  then show ?thesis
    by (simp add: signature_check_def cong: option.case_cong if_cong)
qed

lemma sample_canonical:
  \<open>canonicalize sample_number_text (analyticsResult sample_result) =
     ''{"privacy_budget":{"epsilon_per_query":1},"risk_metrics":{"mean_risk":0.4,"total_customers":1}}''\<close>
  by (simp add: sample_result_def analyticsResult_def sample_number_text_def
        canonicalize_def obj_set_def is_array_index_def parse_nat_def string_of_nat.simps
        quote_json_def escape_char_def hex_digit_def)

lemma sample_lower:
  "toLowerCase ''0x52908400098527886E0F7030069857D2E4169EE7'' = sample_address"
  by (simp add: toLowerCase_def toLowerCase_char_def sample_address_def)

lemma sample_lower': "toLowerCase sample_address = sample_address"
  by (simp add: toLowerCase_def toLowerCase_char_def sample_address_def)

lemma sample_structure: "has_result_structure (analyticsResult sample_result)"
  by (simp add: has_result_structure_def analyticsResult_def sample_result_def)

lemma sample_prefix: "signatureWithPrefix sample_signature = ''0x'' @ sample_signature"
  by (simp add: signatureWithPrefix_def startsWith_def sample_signature_def)


lemma sample_sig_ok:
  "verifyResultSignature sample_env sample_result (JStr sample_signature) sample_address =
     Inr \<lparr> sig_verified = True, sig_error = None, sig_note = None,
           recoveredAddress = Some ''0x52908400098527886E0F7030069857D2E4169EE7'',
           sig_expectedAddress = Some sample_address,
           sig_message = Some ''Signature verified successfully - cryptographically proven'' \<rparr>"
proof -
  have l: "length sample_signature = 130" by (simp add: sample_signature_def)
  show ?thesis
    unfolding verifyResultSignature_def verifyResultSignature_try_def Let_def
    by (simp add: sample_structure sample_prefix l sample_env_def sample_canonical
          sample_lower sample_lower')
qed


lemma sample_run:
  "verifyAttestation sample_env sample_attestation sample_result None =
     Inr \<lparr> tdxQuote = \<lparr> tdx_verified = False, tdx_error = Some ''Intel quote missing'',
                       tdx_intelResult = None, tdx_message = None, tdx_note = None \<rparr>,
           reportDataBinding = None,
           resultSignature =
             \<lparr> sig_verified = True, sig_error = None, sig_note = None,
               recoveredAddress = Some ''0x52908400098527886E0F7030069857D2E4169EE7'',
               sig_expectedAddress = Some sample_address,
               sig_message = Some ''Signature verified successfully - cryptographically proven'' \<rparr>,
           overall = True \<rparr>"
proof -
  have "sample_signature \<noteq> []" "sample_address \<noteq> []" "truthy sample_result"
    by (simp_all add: sample_signature_def sample_address_def sample_result_def)
  then show ?thesis
    by (simp add: verifyAttestation_eq quote_check_def binding_check_def signature_check_def
          sample_attestation_def sample_sig_ok)
qed


lemma sample_quoteless: "intel_quote sample_attestation = None"
  by (simp add: sample_attestation_def)

lemma sample_signature_text:
  "string_or_falsy (signature sample_attestation)"
  "string_or_falsy (signature (sample_attestation\<lparr> signature := Some (JStr forged_signature) \<rparr>))"
  by (simp_all add: sample_attestation_def)



text \<open>
  C9. For an attestation without a quote, the quote check in the response is reported with
  \<open>verified = false\<close> and the error \<open>Intel quote missing\<close>: the oracle is not called, no
  parsed quote is returned and the binding check is skipped. It carries no mark of being not
  applicable; what sets it apart from a failed check is that the overall verdict does not
  count it, and is the outcome of the signature check alone. (A response there is whenever the
  signature is a string or is not truthy.)
\<close>

theorem missing_quote_reported_failed_not_counted:
  assumes "\<not> present (intel_quote att)"
  shows "(string_or_falsy (signature att) \<longrightarrow>
            (\<exists>r. verifyAttestation env att result requestNonce = Inr r))
     \<and> (\<forall>r. verifyAttestation env att result requestNonce = Inr r \<longrightarrow>
          tdxQuote r = \<lparr> tdx_verified = False, tdx_error = Some ''Intel quote missing'',
                         tdx_intelResult = None, tdx_message = None, tdx_note = None \<rparr>
          \<and> reportDataBinding r = None
          \<and> overall r = sig_verified (resultSignature r))"
  using assms verifyAttestation_returns[of att env result requestNonce]
  by (auto simp: verifyAttestation_eq quote_check_def binding_check_def split: sum.splits)

theorem missing_quote_reported_failed_not_counted_witness:
  "\<not> present (intel_quote sample_attestation)
   \<and> string_or_falsy (signature sample_attestation)
   \<and> map_sum id (\<lambda>r. (tdx_verified (tdxQuote r), tdx_error (tdxQuote r), overall r))
        (verifyAttestation sample_env sample_attestation sample_result None)
     = Inr (False, Some ''Intel quote missing'', True)"
  using missing_quote_reported_failed_not_counted[of sample_attestation sample_env sample_result None]
  by (simp add: sample_run sample_quoteless sample_signature_text)

text \<open>
  The response for the sample attestation without a quote, whose signature verifies: the quote
  check reads \<open>verified = false\<close> with an error, as a failed check does.
\<close>

theorem missing_quote_counterexample:
  "verifyAttestation sample_env sample_attestation sample_result None =
     Inr \<lparr> tdxQuote = \<lparr> tdx_verified = False, tdx_error = Some ''Intel quote missing'',
                       tdx_intelResult = None, tdx_message = None, tdx_note = None \<rparr>,
           reportDataBinding = None,
           resultSignature =
             \<lparr> sig_verified = True, sig_error = None, sig_note = None,
               recoveredAddress = Some ''0x52908400098527886E0F7030069857D2E4169EE7'',
               sig_expectedAddress = Some sample_address,
               sig_message = Some ''Signature verified successfully - cryptographically proven'' \<rparr>,
           overall = True \<rparr>"
  by (rule sample_run)

subsection \<open>The signature check\<close>














subsection \<open>Hex strings\<close>

lemma nat_below_16:
  "(n::nat) < 16 \<Longrightarrow> n \<in> {0, 1, 2, 3, 4, 5, 6, 7, 8, 9, 10, 11, 12, 13, 14, 15}"
  by (simp only: insert_iff empty_iff) arith

lemma hex_val_hex_digit: "n < 16 \<Longrightarrow> hex_val (hex_digit n) = Some n"
  by (drule nat_below_16) (elim insertE emptyE; simp add: hex_val_def hex_digit_def)

lemma hex_decode_encode: "hex_decode (hex_encode bs) = bs"
proof (induction bs)
  case Nil
  then show ?case by (simp add: hex_encode_def)
next
  case (Cons b bs)
  have "unat b < 2 ^ LENGTH(8)" by (rule unsigned_less)
  then have lt: "unat b < 256" by simp
  then have hi: "unat b div 16 < 16" and lo: "unat b mod 16 < 16" by simp_all
  have "(of_nat (16 * (unat b div 16) + unat b mod 16) :: byte) = b" by simp
  moreover have "hex_encode (b # bs) = hex_digit (unat b div 16) # hex_digit (unat b mod 16) # hex_encode bs"
    by (simp add: hex_encode_def)
  ultimately show ?case
    using Cons.IH by (simp add: hex_val_hex_digit[OF hi] hex_val_hex_digit[OF lo])
qed

lemma lower_hex_digit:
  "c \<in> set ''0123456789abcdef'' \<Longrightarrow> \<exists>n < 16. hex_val c = Some n \<and> hex_digit n = c"
  by (auto simp: hex_val_def hex_digit_def)

lemma hex_encode_decode: "lower_hex s \<Longrightarrow> hex_encode (hex_decode s) = s"
proof (induction s rule: hex_decode.induct)
  case (1 a b rest)
  from "1.prems" have a: "a \<in> set ''0123456789abcdef''" and b: "b \<in> set ''0123456789abcdef''"
    and rest: "lower_hex rest"
    by (simp_all add: lower_hex_def)
  obtain x where x: "x < 16" "hex_val a = Some x" "hex_digit x = a"
    using lower_hex_digit[OF a] by blast
  obtain y where y: "y < 16" "hex_val b = Some y" "hex_digit y = b"
    using lower_hex_digit[OF b] by blast
  have "16 * x + y < 256" using x(1) y(1) by simp
  then have u: "unat (of_nat (16 * x + y) :: byte) = 16 * x + y"
    by (simp only: unat_of_nat) simp
  have "(16 * x + y) div 16 = x" "(16 * x + y) mod 16 = y" using y(1) by simp_all
  then have "hex_encode [of_nat (16 * x + y) :: byte] = [a, b]"
    using x(3) y(3) u by (simp add: hex_encode_def)
  moreover have "hex_encode (hex_decode rest) = rest" using "1.IH" x(2) y(2) rest by simp
  ultimately show ?case using x(2) y(2) by (simp add: hex_encode_def)
qed (simp_all add: hex_encode_def lower_hex_def)

lemma hex_decode_append:
  "lower_hex a \<Longrightarrow> hex_decode (a @ b) = hex_decode a @ hex_decode b"
proof (induction a rule: hex_decode.induct)
  case (1 x y rest)
  then have "lower_hex rest" "x \<in> set ''0123456789abcdef''" "y \<in> set ''0123456789abcdef''"
    by (simp_all add: lower_hex_def)
  then show ?case using 1 lower_hex_digit[of x] lower_hex_digit[of y] by auto
qed (simp_all add: lower_hex_def)

subsection \<open>The report data binding\<close>

lemma binding_try_eval:
  assumes "opt_chain (get q ''body'') ''reportdata'' = Some (JStr h)"
    and "length (hex_decode (strip0x h)) = 64"
    and "signing_address att = Some addr"
  shows "verifyReportDataBinding_try att requestNonce q =
     Inr \<lparr> bindsAddress = (take 32 (hex_decode (strip0x h)) = pad32 (hex_decode (strip0x addr))),
           embedsNonce = (hex_encode (drop 32 (hex_decode (strip0x h))) = strip0x requestNonce),
           binding_error = None,
           embeddedAddress = Some (hex_encode (take 32 (hex_decode (strip0x h)))),
           embeddedNonce = Some (hex_encode (drop 32 (hex_decode (strip0x h)))),
           expectedAddress = Some (hex_encode (pad32 (hex_decode (strip0x addr)))),
           expectedNonce = Some (strip0x requestNonce) \<rparr>"
proof -
  have "h \<noteq> []" using assms(2) by (auto simp: strip0x_def startsWith_def)
  then show ?thesis
    using assms by (simp add: verifyReportDataBinding_try_def Let_def)
qed

lemma binding_eval:
  assumes "get intelResult ''quote'' = Some q" and "truthy q"
    and "opt_chain (get q ''body'') ''reportdata'' = Some (JStr h)"
    and "length (hex_decode (strip0x h)) = 64"
  shows "verifyReportDataBinding att requestNonce intelResult =
     (case signing_address att of
        None \<Rightarrow>
          Inr (binding_failed (''Cannot read properties of undefined (reading ''
                               @ [CHR 0x27] @ ''startsWith'' @ [CHR 0x27] @ '')''))
      | Some addr \<Rightarrow>
          Inr \<lparr> bindsAddress = (take 32 (hex_decode (strip0x h)) = pad32 (hex_decode (strip0x addr))),
                embedsNonce = (hex_encode (drop 32 (hex_decode (strip0x h))) = strip0x requestNonce),
                binding_error = None,
                embeddedAddress = Some (hex_encode (take 32 (hex_decode (strip0x h)))),
                embeddedNonce = Some (hex_encode (drop 32 (hex_decode (strip0x h)))),
                expectedAddress = Some (hex_encode (pad32 (hex_decode (strip0x addr)))),
                expectedNonce = Some (strip0x requestNonce) \<rparr>)"
proof -
  have ir: "truthy intelResult" using assms(1) by (cases intelResult) simp_all
  have "h \<noteq> []" using assms(4) by (auto simp: strip0x_def startsWith_def)
  show ?thesis
  proof (cases "signing_address att")
    case None
    then show ?thesis
      using assms ir \<open>h \<noteq> []\<close>
      by (simp add: verifyReportDataBinding_def member_truthy verifyReportDataBinding_try_def
            Let_def TypeError_def)
  next
    case (Some addr)
    then show ?thesis
      using assms ir binding_try_eval[OF assms(3,4) Some]
      by (simp add: verifyReportDataBinding_def member_truthy)
  qed
qed

text \<open>
  C3. For a parsed quote with a report data field of 64 bytes, the binding check returns, and
  it passes exactly when the first 32 bytes equal the bytes of the signing address padded with
  zeros to 32 bytes, and the last 32 bytes written in lower-case hex equal the request nonce
  (without its \<open>0x\<close> prefix) as a string. A passing check implies that the last 32 bytes are
  the bytes of the request nonce; for a request nonce written in lower-case hex, passing is
  exactly byte equality of both halves.
\<close>

theorem report_data_binding_characterised:
  assumes "get intelResult ''quote'' = Some q" and "truthy q"
    and "opt_chain (get q ''body'') ''reportdata'' = Some (JStr h)"
    and "length (hex_decode (strip0x h)) = 64"
  shows "\<exists>r. verifyReportDataBinding att requestNonce intelResult = Inr r
    \<and> ((bindsAddress r \<and> embedsNonce r) \<longleftrightarrow>
          (\<exists>addr. signing_address att = Some addr
                  \<and> take 32 (hex_decode (strip0x h)) = pad32 (hex_decode (strip0x addr)))
          \<and> hex_encode (drop 32 (hex_decode (strip0x h))) = strip0x requestNonce)
    \<and> (bindsAddress r \<and> embedsNonce r \<longrightarrow>
          drop 32 (hex_decode (strip0x h)) = hex_decode (strip0x requestNonce))
    \<and> (lower_hex (strip0x requestNonce) \<longrightarrow>
          ((bindsAddress r \<and> embedsNonce r) \<longleftrightarrow>
             (\<exists>addr. signing_address att = Some addr
                     \<and> take 32 (hex_decode (strip0x h)) = pad32 (hex_decode (strip0x addr)))
             \<and> drop 32 (hex_decode (strip0x h)) = hex_decode (strip0x requestNonce)))"
proof (cases "signing_address att")
  case None
  then show ?thesis
    using binding_eval[OF assms, of att requestNonce] by (simp add: binding_failed_def)
next
  case (Some addr)
  let ?rd = "hex_decode (strip0x h)"
  let ?n = "strip0x requestNonce"
  let ?addr_ok = "take 32 ?rd = pad32 (hex_decode (strip0x addr))"
  let ?r = "\<lparr> bindsAddress = ?addr_ok,
                embedsNonce = (hex_encode (drop 32 ?rd) = ?n),
                binding_error = None,
                embeddedAddress = Some (hex_encode (take 32 ?rd)),
                embeddedNonce = Some (hex_encode (drop 32 ?rd)),
                expectedAddress = Some (hex_encode (pad32 (hex_decode (strip0x addr)))),
                expectedNonce = Some ?n \<rparr>"
  have run: "verifyReportDataBinding att requestNonce intelResult = Inr ?r"
    using binding_eval[OF assms, of att requestNonce] Some by simp
  have sound: "drop 32 ?rd = hex_decode ?n" if "hex_encode (drop 32 ?rd) = ?n"
    using hex_decode_encode[of "drop 32 ?rd"] that by simp
  have complete: "hex_encode (drop 32 ?rd) = ?n" if "lower_hex ?n" "drop 32 ?rd = hex_decode ?n"
    using hex_encode_decode[OF that(1)] that(2) by simp
  have c1: "(bindsAddress ?r \<and> embedsNonce ?r) \<longleftrightarrow>
          (\<exists>a. signing_address att = Some a \<and> take 32 ?rd = pad32 (hex_decode (strip0x a)))
          \<and> hex_encode (drop 32 ?rd) = ?n"
    using Some by simp
  have c2: "bindsAddress ?r \<and> embedsNonce ?r \<longrightarrow> drop 32 ?rd = hex_decode ?n"
    using sound by simp
  have c3: "lower_hex ?n \<longrightarrow>
          ((bindsAddress ?r \<and> embedsNonce ?r) \<longleftrightarrow>
             (\<exists>a. signing_address att = Some a \<and> take 32 ?rd = pad32 (hex_decode (strip0x a)))
             \<and> drop 32 ?rd = hex_decode ?n)"
    using Some sound complete by (simp (no_asm_simp)) blast
  show ?thesis
    by (rule exI[of _ ?r]) (intro conjI run c1 c2 c3)
qed

lemma sample_address_bytes:
  "hex_decode sample_padded_address = pad32 (hex_decode (strip0x sample_address))"
  by (simp add: sample_padded_address_def sample_address_def strip0x_def startsWith_def
        pad32_def hex_val_def) (simp add: eval_nat_numeral)

lemma sample_nonce_bytes: "hex_decode upper_nonce = hex_decode sample_nonce"
  by (simp add: upper_nonce_def sample_nonce_def hex_val_def)

lemma sample_nonce_lower: "lower_hex sample_nonce"
  by (simp add: sample_nonce_def lower_hex_def)

lemma sample_padded_lower: "lower_hex sample_padded_address"
  by (simp add: sample_padded_address_def lower_hex_def)

lemma length_sample_padded: "length (hex_decode sample_padded_address) = 32"
  by (simp add: sample_padded_address_def hex_val_def)

lemma length_sample_nonce: "length (hex_decode sample_nonce) = 32"
  by (simp add: sample_nonce_def hex_val_def)

lemma sample_report_bytes:
  "hex_decode (strip0x sample_report_data) = hex_decode sample_padded_address @ hex_decode sample_nonce"
proof -
  have "strip0x sample_report_data = sample_report_data"
    by (simp add: strip0x_def startsWith_def sample_report_data_def sample_padded_address_def)
  then show ?thesis
    by (simp add: sample_report_data_def hex_decode_append sample_padded_lower)
qed

lemma sample_binding:
  "verifyReportDataBinding hardware_attestation n oracle_response =
     Inr \<lparr> bindsAddress = True,
           embedsNonce = (sample_nonce = strip0x n),
           binding_error = None,
           embeddedAddress = Some sample_padded_address,
           embeddedNonce = Some sample_nonce,
           expectedAddress = Some sample_padded_address,
           expectedNonce = Some (strip0x n) \<rparr>"
proof -
  have q: "get oracle_response ''quote'' =
      Some (JObj [(''verified'', JBool True), (''body'', JObj [(''reportdata'', JStr sample_report_data)])])"
    by (simp add: oracle_response_def)
  have rd: "opt_chain (get (JObj [(''verified'', JBool True),
               (''body'', JObj [(''reportdata'', JStr sample_report_data)])]) ''body'') ''reportdata''
      = Some (JStr sample_report_data)"
    by simp
  have len: "length (hex_decode (strip0x sample_report_data)) = 64"
    by (simp add: sample_report_bytes length_sample_padded length_sample_nonce)
  have addr: "signing_address hardware_attestation = Some sample_address"
    by (simp add: hardware_attestation_def sample_attestation_def)
  have t: "take 32 (hex_decode (strip0x sample_report_data)) = hex_decode sample_padded_address"
    and d: "drop 32 (hex_decode (strip0x sample_report_data)) = hex_decode sample_nonce"
    by (simp_all add: sample_report_bytes length_sample_padded)
  show ?thesis
    using binding_eval[OF q _ rd len, of hardware_attestation n]
    by (simp add: addr t d sample_address_bytes[symmetric]
          hex_encode_decode sample_nonce_lower sample_padded_lower)
qed

lemma strip_sample_nonce: "strip0x sample_nonce = sample_nonce" "strip0x upper_nonce = upper_nonce"
  by (simp_all add: strip0x_def startsWith_def sample_nonce_def upper_nonce_def)

lemma nonces_differ: "sample_nonce \<noteq> upper_nonce" "sample_nonce \<noteq> []" "upper_nonce \<noteq> []"
  by (simp_all add: sample_nonce_def upper_nonce_def)

theorem report_data_binding_characterised_witness:
  "length (hex_decode (strip0x sample_report_data)) = 64
   \<and> lower_hex (strip0x sample_nonce)
   \<and> drop 32 (hex_decode (strip0x sample_report_data)) = hex_decode (strip0x sample_nonce)
   \<and> map_sum id (\<lambda>r. (bindsAddress r, embedsNonce r))
        (verifyReportDataBinding hardware_attestation sample_nonce oracle_response) = Inr (True, True)"
  using report_data_binding_characterised
    [of oracle_response
        "JObj [(''verified'', JBool True), (''body'', JObj [(''reportdata'', JStr sample_report_data)])]"
        sample_report_data hardware_attestation sample_nonce]
  by (simp add: oracle_response_def sample_binding[unfolded oracle_response_def] strip_sample_nonce
        sample_nonce_lower sample_report_bytes length_sample_padded length_sample_nonce)

text \<open>
  The request nonce in upper-case hex: both halves of the report data equal the expected
  bytes, and the check does not pass.
\<close>

theorem report_data_binding_counterexample:
  "take 32 (hex_decode (strip0x sample_report_data)) = pad32 (hex_decode (strip0x sample_address))
   \<and> drop 32 (hex_decode (strip0x sample_report_data)) = hex_decode (strip0x upper_nonce)
   \<and> signing_address hardware_attestation = Some sample_address
   \<and> verifyReportDataBinding hardware_attestation upper_nonce oracle_response =
       Inr \<lparr> bindsAddress = True,
             embedsNonce = False,
             binding_error = None,
             embeddedAddress = Some sample_padded_address,
             embeddedNonce = Some sample_nonce,
             expectedAddress = Some sample_padded_address,
             expectedNonce = Some upper_nonce \<rparr>"
proof -
  have t: "take 32 (hex_decode (strip0x sample_report_data)) = hex_decode sample_padded_address"
    and d: "drop 32 (hex_decode (strip0x sample_report_data)) = hex_decode sample_nonce"
    by (simp_all add: sample_report_bytes length_sample_padded)
  have a: "signing_address hardware_attestation = Some sample_address"
    by (simp add: hardware_attestation_def sample_attestation_def)
  have r: "verifyReportDataBinding hardware_attestation upper_nonce oracle_response =
       Inr \<lparr> bindsAddress = True,
             embedsNonce = False,
             binding_error = None,
             embeddedAddress = Some sample_padded_address,
             embeddedNonce = Some sample_nonce,
             expectedAddress = Some sample_padded_address,
             expectedNonce = Some upper_nonce \<rparr>"
    by (simp add: sample_binding strip_sample_nonce nonces_differ)
  show ?thesis
    by (simp only: t d a r sample_address_bytes sample_nonce_bytes strip_sample_nonce simp_thms)
qed

subsection \<open>The verdict and the binding\<close>

lemma hardware_quote:
  "quote_check hardware_env hardware_attestation =
     \<lparr> tdx_verified = True, tdx_error = None, tdx_intelResult = Some oracle_response,
       tdx_message = None, tdx_note = None \<rparr>"
proof -
  have "sample_quote \<noteq> []" by (simp add: sample_quote_def)
  then show ?thesis
    by (simp add: quote_check_def hardware_attestation_def verifyTdxQuote_def verifyTdxQuote_try_def
          hardware_env_def oracle_response_def or_else_def)
qed

lemma hardware_signature:
  "signature_check hardware_env hardware_attestation sample_result =
     Inr \<lparr> sig_verified = True, sig_error = None, sig_note = None,
           recoveredAddress = Some ''0x52908400098527886E0F7030069857D2E4169EE7'',
           sig_expectedAddress = Some sample_address,
           sig_message = Some ''Signature verified successfully - cryptographically proven'' \<rparr>"
proof -
  have "sample_signature \<noteq> []" "sample_address \<noteq> []" "truthy sample_result"
    by (simp_all add: sample_signature_def sample_address_def sample_result_def)
  then have "signature_check sample_env hardware_attestation sample_result =
      verifyResultSignature sample_env sample_result (JStr sample_signature) sample_address"
    by (simp add: signature_check_def hardware_attestation_def sample_attestation_def)
  then show ?thesis by (simp add: hardware_env_def sample_sig_ok)
qed

lemma hardware_run:
  assumes "n \<noteq> []"
  shows "verifyAttestation hardware_env hardware_attestation sample_result (Some n) =
     Inr \<lparr> tdxQuote = \<lparr> tdx_verified = True, tdx_error = None,
                       tdx_intelResult = Some oracle_response,
                       tdx_message = None, tdx_note = None \<rparr>,
           reportDataBinding =
             Some \<lparr> bindsAddress = True,
                    embedsNonce = (sample_nonce = strip0x n),
                    binding_error = None,
                    embeddedAddress = Some sample_padded_address,
                    embeddedNonce = Some sample_nonce,
                    expectedAddress = Some sample_padded_address,
                    expectedNonce = Some (strip0x n) \<rparr>,
           resultSignature =
             \<lparr> sig_verified = True, sig_error = None, sig_note = None,
               recoveredAddress = Some ''0x52908400098527886E0F7030069857D2E4169EE7'',
               sig_expectedAddress = Some sample_address,
               sig_message = Some ''Signature verified successfully - cryptographically proven'' \<rparr>,
           overall = True \<rparr>"
proof -
  have "truthy oracle_response" by (simp add: oracle_response_def)
  then have "binding_check hardware_env hardware_attestation (Some n) =
      Some \<lparr> bindsAddress = True,
                    embedsNonce = (sample_nonce = strip0x n),
                    binding_error = None,
                    embeddedAddress = Some sample_padded_address,
                    embeddedNonce = Some sample_nonce,
                    expectedAddress = Some sample_padded_address,
                    expectedNonce = Some (strip0x n) \<rparr>"
    using assms by (simp add: binding_check_def hardware_quote sample_binding)
  then show ?thesis
    by (simp add: verifyAttestation_eq hardware_quote hardware_signature)
qed

text \<open>
  C10. The overall verdict does not depend on the binding check: two runs with the same
  outcome of the signature check, the same outcome of the quote check and a quote present in
  both or in neither have the same overall verdict, whatever their binding checks say.
\<close>

theorem overall_independent_of_binding:
  assumes "verifyAttestation env att result n = Inr r"
    and "verifyAttestation env' att' result' n' = Inr r'"
    and "sig_verified (resultSignature r) = sig_verified (resultSignature r')"
    and "tdx_verified (tdxQuote r) = tdx_verified (tdxQuote r')"
    and "present (intel_quote att) = present (intel_quote att')"
  shows "overall r = overall r'"
  using assms by (auto simp: verifyAttestation_eq split: sum.splits)

theorem overall_independent_of_binding_witness:
  "map_sum id (\<lambda>r. (map_option embedsNonce (reportDataBinding r), overall r))
      (verifyAttestation hardware_env hardware_attestation sample_result (Some sample_nonce))
     = Inr (Some True, True)
   \<and> map_sum id (\<lambda>r. (map_option embedsNonce (reportDataBinding r), overall r))
      (verifyAttestation hardware_env hardware_attestation sample_result (Some upper_nonce))
     = Inr (Some False, True)"
  using overall_independent_of_binding
    [of hardware_env hardware_attestation sample_result "Some sample_nonce"
        "projr (verifyAttestation hardware_env hardware_attestation sample_result (Some sample_nonce))"
        hardware_env hardware_attestation sample_result "Some upper_nonce"
        "projr (verifyAttestation hardware_env hardware_attestation sample_result (Some upper_nonce))"]
  by (simp add: hardware_run nonces_differ strip_sample_nonce)

subsection \<open>Malformed signatures and oracle failures\<close>

lemma signature_error_attached:
  "\<exists>r. verifyResultSignature env result (JStr s) signingAddress = Inr r
        \<and> \<not> sig_verified r \<and> sig_error r \<noteq> None"
  if "length (signatureWithPrefix s) \<noteq> 132
      \<or> isl (verifyMessage env (canonicalize (number_text env) (analyticsResult result))
                (signatureWithPrefix s))"
  using that
  by (auto simp: verifyResultSignature_def verifyResultSignature_try_def Let_def split: sum.splits)

lemma signature_check_malformed:
  assumes "signature att = Some (JStr s)"
    and "length (signatureWithPrefix s) \<noteq> 132
      \<or> isl (verifyMessage env (canonicalize (number_text env) (analyticsResult result))
                (signatureWithPrefix s))"
  shows "\<exists>r. signature_check env att result = Inr r \<and> \<not> sig_verified r \<and> sig_error r \<noteq> None"
  using assms(1) signature_error_attached[OF assms(2)]
  by (auto simp: signature_check_def split: option.splits)

lemma quote_check_oracle_failure:
  assumes "intel_quote att = Some q" and "q \<noteq> []" and "post_quote env q = Inl err"
  shows "\<not> tdx_verified (quote_check env att) \<and> tdx_error (quote_check env att) = Some (message err)"
  using assms by (simp add: quote_check_def verifyTdxQuote_def verifyTdxQuote_try_def)

text \<open>
  When the signature is a string or is not truthy, \<open>verifyAttestation\<close> returns a complete
  result. A signature of the wrong length, or one on
  which the recovery throws, gives \<open>verified = false\<close> with an error in the signature check; a
  failure of the oracle request gives \<open>verified = false\<close> with the error message in the quote
  check. Such a signature has no influence on the quote check and the binding check, and the
  oracle none on the signature check.
\<close>

lemma string_signature_degrades_one_check:
  assumes "string_or_falsy (signature att)"
  shows "\<exists>r. verifyAttestation env att result requestNonce = Inr r
     \<and> (\<forall>s. signature att = Some (JStr s)
            \<and> (length (signatureWithPrefix s) \<noteq> 132
               \<or> isl (verifyMessage env (canonicalize (number_text env) (analyticsResult result))
                         (signatureWithPrefix s)))
          \<longrightarrow> \<not> sig_verified (resultSignature r) \<and> sig_error (resultSignature r) \<noteq> None)
     \<and> (\<forall>q err. intel_quote att = Some q \<and> q \<noteq> [] \<and> post_quote env q = Inl err
          \<longrightarrow> \<not> tdx_verified (tdxQuote r) \<and> tdx_error (tdxQuote r) = Some (message err))
     \<and> (\<forall>sg'. string_or_falsy sg' \<longrightarrow>
           (\<exists>r'. verifyAttestation env (att\<lparr> signature := sg' \<rparr>) result requestNonce = Inr r'
              \<and> tdxQuote r' = tdxQuote r \<and> reportDataBinding r' = reportDataBinding r))
     \<and> (\<forall>p'. \<exists>r'. verifyAttestation (env\<lparr> post_quote := p' \<rparr>) att result requestNonce = Inr r'
            \<and> resultSignature r' = resultSignature r)"
proof -
  obtain r where run: "verifyAttestation env att result requestNonce = Inr r"
    using verifyAttestation_returns[OF assms] by blast
  note parts = verifyAttestation_result[OF run]
  have sig: "\<forall>s. signature att = Some (JStr s)
            \<and> (length (signatureWithPrefix s) \<noteq> 132
               \<or> isl (verifyMessage env (canonicalize (number_text env) (analyticsResult result))
                         (signatureWithPrefix s)))
          \<longrightarrow> \<not> sig_verified (resultSignature r) \<and> sig_error (resultSignature r) \<noteq> None"
    using signature_check_malformed[of att _ env result] parts(1) by auto
  have tdx: "\<forall>q err. intel_quote att = Some q \<and> q \<noteq> [] \<and> post_quote env q = Inl err
          \<longrightarrow> \<not> tdx_verified (tdxQuote r) \<and> tdx_error (tdxQuote r) = Some (message err)"
    using quote_check_oracle_failure[of att _ env] parts(2) by simp
  have own1: "\<forall>sg'. string_or_falsy sg' \<longrightarrow>
           (\<exists>r'. verifyAttestation env (att\<lparr> signature := sg' \<rparr>) result requestNonce = Inr r'
              \<and> tdxQuote r' = tdxQuote r \<and> reportDataBinding r' = reportDataBinding r)"
  proof (intro allI impI)
    fix sg'
    assume "string_or_falsy sg'"
    then obtain r' where
      run': "verifyAttestation env (att\<lparr> signature := sg' \<rparr>) result requestNonce = Inr r'"
      using verifyAttestation_returns[of "att\<lparr> signature := sg' \<rparr>" env result requestNonce]
      by auto
    show "\<exists>r'. verifyAttestation env (att\<lparr> signature := sg' \<rparr>) result requestNonce = Inr r'
              \<and> tdxQuote r' = tdxQuote r \<and> reportDataBinding r' = reportDataBinding r"
      using run' verifyAttestation_result(2,3)[OF run'] parts(2,3) by simp
  qed
  have own2: "\<forall>p'. \<exists>r'. verifyAttestation (env\<lparr> post_quote := p' \<rparr>) att result requestNonce = Inr r'
            \<and> resultSignature r' = resultSignature r"
    using parts(1) by (simp add: verifyAttestation_eq)
  show ?thesis
    by (rule exI[of _ r]) (intro conjI run sig tdx own1 own2)
qed

lemma broken_run:
  "verifyAttestation sample_env broken_attestation sample_result (Some sample_nonce) =
      Inr \<lparr> tdxQuote = \<lparr> tdx_verified = False, tdx_error = Some ''connect ECONNREFUSED'',
                        tdx_intelResult = None, tdx_message = None,
                        tdx_note = Some ''TDX quote verification failed - may be in simulation mode'' \<rparr>,
            reportDataBinding = None,
            resultSignature =
              \<lparr> sig_verified = False,
                sig_error = Some ''Invalid signature length: 6 (expected 132)'',
                sig_note = None, recoveredAddress = None, sig_expectedAddress = None,
                sig_message = None \<rparr>,
            overall = False \<rparr>"
proof -
  have q: "sample_quote \<noteq> []" by (simp add: sample_quote_def)
  have t: "truthy sample_result" by (simp add: sample_result_def)
  have a: "sample_address \<noteq> []" by (simp add: sample_address_def)
  have p: "signatureWithPrefix ''0x1234'' = ''0x1234''"
    by (simp add: signatureWithPrefix_def startsWith_def)
  have "string_of_nat 6 = ''6''" by (simp add: string_of_nat.simps hex_digit_def)
  then have n: "string_of_nat (Suc (Suc (Suc (Suc (Suc (Suc 0)))))) = ''6''"
    by (simp add: eval_nat_numeral)
  show ?thesis
    by (simp add: verifyAttestation_eq quote_check_def signature_check_def binding_check_def
          broken_attestation_def
          hardware_attestation_def sample_attestation_def verifyTdxQuote_def verifyTdxQuote_try_def
          verifyResultSignature_def verifyResultSignature_try_def sample_env_def q t a
          sample_structure p n)
qed

text \<open>
  A signature that is truthy and not a string, with a signing address and a result of the
  expected structure: \<open>signature.startsWith\<close> throws in the \<open>try\<close> block,
  \<open>signature?.substring\<close> throws in the \<open>catch\<close> block, and the exception leaves
  \<open>verifyAttestation\<close>.
\<close>

lemma nonstring_signature_throws:
  assumes "signature att = Some v" and "truthy v" and "\<forall>s. v \<noteq> JStr s"
    and "signing_address att = Some addr" and "addr \<noteq> []"
    and "truthy result" and "has_result_structure (analyticsResult result)"
  shows "verifyAttestation env att result requestNonce =
           Inl (TypeError ''signature?.substring is not a function'')"
proof -
  have "verifyResultSignature env result v addr =
          Inl (TypeError ''signature?.substring is not a function'')"
    using assms(2,3,7)
    by (cases v) (simp_all add: verifyResultSignature_def verifyResultSignature_try_def)
  then show ?thesis
    using assms by (simp add: verifyAttestation_eq signature_check_def)
qed

text \<open>
  C7. The sample attestation with the number \<open>12345\<close> where its signature should be, and
  the sample result. \<open>verifyAttestation\<close> returns no result with a failed signature check:
  it throws the \<open>TypeError\<close> of the \<open>catch\<close> block of \<open>verifyResultSignature\<close>.
\<close>

theorem numeric_signature_leaves_verifier:
  "verifyAttestation sample_env numeric_attestation sample_result None =
     Inl (TypeError ''signature?.substring is not a function'')"
proof -
  have "sample_address \<noteq> []" "truthy sample_result"
    by (simp_all add: sample_address_def sample_result_def)
  then show ?thesis
    by (intro nonstring_signature_throws[where v = "JNum 12345" and addr = sample_address])
       (simp_all add: numeric_attestation_def sample_attestation_def sample_structure)
qed

section \<open>Properties of the job orchestrator\<close>

lemma retry_loop_succeeds_after:
  assumes "\<forall>i < j. isl (analyze_post (tee (a + i)))"
    and "analyze_post (tee (a + j)) = Inr resp"
    and "a + j \<le> maxRetries"
  shows "retry_loop tee a w = (Inr (Some resp), a + j, w @ map retry_delay [a..<a + j])"
  using assms
proof (induction j arbitrary: a w)
  case 0
  then show ?case by (simp add: retry_loop.simps[of tee a w])
next
  case (Suc j)
  from Suc.prems(1) have "isl (analyze_post (tee (a + 0)))" by blast
  then obtain err where err: "analyze_post (tee a) = Inl err"
    by (cases "analyze_post (tee a)") simp_all
  have lt: "a < maxRetries" using Suc.prems(3) by simp
  have fails: "\<forall>i < j. isl (analyze_post (tee (Suc a + i)))"
    using Suc.prems(1) by (metis Suc_less_eq add_Suc_shift)
  have ok: "analyze_post (tee (Suc a + j)) = Inr resp" using Suc.prems(2) by simp
  have le: "Suc a + j \<le> maxRetries" using Suc.prems(3) by simp
  have "retry_loop tee a w = retry_loop tee (Suc a) (w @ [retry_delay a])"
    using err lt by (simp add: retry_loop.simps[of tee a w])
  also have "\<dots> = (Inr (Some resp), Suc a + j, (w @ [retry_delay a]) @ map retry_delay [Suc a..<Suc a + j])"
    by (rule Suc.IH[OF fails ok le])
  also have "(w @ [retry_delay a]) @ map retry_delay [Suc a..<Suc a + j] = w @ map retry_delay [a..<a + Suc j]"
    by (simp add: upt_conv_Cons del: upt_Suc)
  finally show ?case by simp
qed

text \<open>
  C4. When the compute call fails on the first \<open>k\<close> attempts (\<open>k < 5\<close>: the connection
  fails or the status is 500 or above) and attempt \<open>k + 1\<close> returns a response below 500 with
  a body, the orchestrator makes exactly \<open>k + 1\<close> calls, waits \<open>min(2000 * attempt, 10000)\<close>
  milliseconds after each failed attempt, which is \<open>2000 * attempt\<close> here, and stores the job
  as completed. After four failures the delays are 2, 4, 6 and 8 seconds, 20 seconds in all.
\<close>

theorem retry_then_complete:
  assumes "jobResults jobId = Some j0"
    and "k < 5"
    and "\<forall>a. 1 \<le> a \<and> a \<le> k \<longrightarrow> isl (analyze_post (tee a))"
    and "tee (k + 1) = HttpResponse st body" and "st < 500" and "body \<noteq> JNull"
  shows "\<exists>final. processJob nt tee jobResults jobId =
           (jobResults(jobId \<mapsto> final), k + 1, map retry_delay [1..<k + 1])
       \<and> status final = Completed
       \<and> job_result final = get body ''result''
       \<and> job_error final = job_error j0
       \<and> (\<forall>a \<in> set [1..<k + 1]. retry_delay a = 2000 * a)
       \<and> (k = 4 \<longrightarrow> map retry_delay [1..<k + 1] = [2000, 4000, 6000, 8000]
                    \<and> sum_list (map retry_delay [1..<k + 1]) = 20000)"
proof -
  have fails: "\<forall>i < k. isl (analyze_post (tee (1 + i)))" using assms(3) by simp
  have ok: "analyze_post (tee (1 + k)) = Inr (st, body)"
    using assms(4,5) by (simp add: analyze_post_def)
  have le: "1 + k \<le> maxRetries" using assms(2) by (simp add: maxRetries_def)
  have loop: "retry_loop tee (Suc 0) [] = (Inr (Some (st, body)), Suc k, map retry_delay [Suc 0..<Suc k])"
    using retry_loop_succeeds_after[OF fails ok le, of "[]"] by (simp del: upt_Suc)
  have mem: "member body ''result'' = Inr (get body ''result'')"
    using assms(6) by (cases body) simp_all
  let ?final = "j0\<lparr> status := Completed, job_result := get body ''result'',
                     job_attestation := get body ''attestation'' \<rparr>"
  have run: "processJob nt tee jobResults jobId =
           (jobResults(jobId \<mapsto> ?final), k + 1, map retry_delay [1..<k + 1])"
    using assms(1) by (simp add: processJob_def loop mem del: upt_Suc)
  have delays: "\<forall>a \<in> set [1..<k + 1]. retry_delay a = 2000 * a"
    using assms(2) by (auto simp: retry_delay_def)
  have four: "k = 4 \<longrightarrow> map retry_delay [1..<k + 1] = [2000, 4000, 6000, 8000]
                    \<and> sum_list (map retry_delay [1..<k + 1]) = 20000"
  proof
    assume k: "k = 4"
    have "[1..<k + 1] = [1, 2, 3, 4]" unfolding k by (simp add: eval_nat_numeral)
    then show "map retry_delay [1..<k + 1] = [2000, 4000, 6000, 8000]
                    \<and> sum_list (map retry_delay [1..<k + 1]) = 20000"
      by (simp only:) (simp add: retry_delay_def)
  qed
  show ?thesis
    by (rule exI[of _ ?final]) (intro conjI run delays four; simp)
qed

theorem retry_then_complete_witness:
  "processJob sample_number_text flaky_tee [''5f3a9c0e1b7d4a62'' \<mapsto> pending_job] ''5f3a9c0e1b7d4a62'' =
     ([''5f3a9c0e1b7d4a62'' \<mapsto>
         pending_job\<lparr> status := Completed, job_result := Some sample_result,
                       job_attestation := Some (JObj [(''signing_address'', JStr sample_address)]) \<rparr>],
      5, [2000, 4000, 6000, 8000])"
proof -
  have fails: "\<forall>a. 1 \<le> a \<and> a \<le> 4 \<longrightarrow> isl (analyze_post (flaky_tee a))"
  proof (intro allI impI)
    fix a :: nat assume "1 \<le> a \<and> a \<le> 4"
    then have "a = 1 \<or> a = 2 \<or> a = 3 \<or> a = 4" by arith
    then show "isl (analyze_post (flaky_tee a))"
      by (elim disjE) (simp_all add: flaky_tee_def analyze_post_def)
  qed
  have ok: "flaky_tee (4 + 1) = HttpResponse 200 (JObj [(''result'', sample_result),
                                  (''attestation'', JObj [(''signing_address'', JStr sample_address)])])"
    by (simp add: flaky_tee_def)
  have stored: "[''5f3a9c0e1b7d4a62'' \<mapsto> pending_job] ''5f3a9c0e1b7d4a62'' = Some pending_job"
    by simp
  have evaluated:
    "processJob sample_number_text flaky_tee [''5f3a9c0e1b7d4a62'' \<mapsto> pending_job] ''5f3a9c0e1b7d4a62'' =
     ([''5f3a9c0e1b7d4a62'' \<mapsto>
         pending_job\<lparr> status := Completed, job_result := Some sample_result,
                       job_attestation := Some (JObj [(''signing_address'', JStr sample_address)]) \<rparr>],
      5, [2000, 4000, 6000, 8000])"
    by (simp add: processJob_def retry_loop.simps flaky_tee_def analyze_post_def maxRetries_def
          retry_delay_def)
  show ?thesis
    using retry_then_complete
      [of "[''5f3a9c0e1b7d4a62'' \<mapsto> pending_job]" "''5f3a9c0e1b7d4a62''" pending_job 4 flaky_tee 200
          "JObj [(''result'', sample_result),
                 (''attestation'', JObj [(''signing_address'', JStr sample_address)])]"
          sample_number_text, OF stored _ fails ok]
      evaluated
    by simp
qed

text \<open>
  Every job that \<open>processJob\<close> finds ends in a terminal state. A failed job has an error and
  no result; a completed job has no error, and for a result it has whatever the field
  \<open>result\<close> of the response body held.
\<close>

lemma processJob_terminal:
  assumes "jobResults jobId = Some j0" and "job_result j0 = None" and "job_error j0 = None"
  shows "\<exists>final calls waited.
           processJob nt tee jobResults jobId = (jobResults(jobId \<mapsto> final), calls, waited)
         \<and> (status final = Failed \<and> job_error final \<noteq> None \<and> job_result final = None
            \<or> status final = Completed \<and> job_error final = None)"
proof -
  obtain ended calls waited where loop: "retry_loop tee 1 [] = (ended, calls, waited)"
    by (cases "retry_loop tee 1 []") auto
  let ?j = "j0\<lparr> status := Processing \<rparr>"
  define final where "final =
     (case ended of
        Inl err \<Rightarrow> job_failed nt ?j err
      | Inr None \<Rightarrow>
          job_failed nt ?j (TypeError ''Cannot read properties of undefined (reading data)'')
      | Inr (Some (st, body)) \<Rightarrow>
          (case member body ''result'' of
             Inl err \<Rightarrow> job_failed nt (?j\<lparr> status := Completed \<rparr>) err
           | Inr res \<Rightarrow>
               ?j\<lparr> status := Completed, job_result := res,
                   job_attestation := get body ''attestation'' \<rparr>))"
  have run: "processJob nt tee jobResults jobId = (jobResults(jobId \<mapsto> final), calls, waited)"
    using assms(1) loop
    by (simp add: processJob_def final_def Let_def split: sum.splits option.splits prod.splits)
  have "status final = Failed \<and> job_error final \<noteq> None \<and> job_result final = None
            \<or> status final = Completed \<and> job_error final = None"
    using assms(2,3)
    by (auto simp: final_def job_failed_def split: sum.splits option.splits prod.splits)
  with run show ?thesis by blast
qed

text \<open>
  C5. The compute endpoint answers the first call with status 400 and an error body. The
  orchestrator makes this one call and no further attempt, and stores the job as completed,
  with no result and no error: the response is below 500, so the request counts as
  successful, and the status of the response is not looked at again.
\<close>

theorem client_error_stored_as_completed:
  "processJob sample_number_text rejecting_tee
       [''5f3a9c0e1b7d4a62'' \<mapsto> pending_job] ''5f3a9c0e1b7d4a62'' =
     ([''5f3a9c0e1b7d4a62'' \<mapsto>
         \<lparr> job_id = ''5f3a9c0e1b7d4a62'', status = Completed, epsilon = 1,
           job_result = None, job_attestation = None, job_error = None \<rparr>],
      1, [])"
  by (simp add: processJob_def retry_loop.simps rejecting_tee_def analyze_post_def maxRetries_def
        pending_job_def)

text \<open>
  C8. A job submitted to that endpoint reaches the terminal state \<open>Completed\<close> with neither
  of the fields \<open>result\<close> and \<open>error\<close> set.
\<close>

theorem completed_job_without_result:
  "submit sample_number_text rejecting_tee Map.empty ''5f3a9c0e1b7d4a62''
       (Some (JArr [JObj [(''credit_score'', JNum 700), (''income'', JNum 50000)]])) (Some 1) =
     ([''5f3a9c0e1b7d4a62'' \<mapsto>
         \<lparr> job_id = ''5f3a9c0e1b7d4a62'', status = Completed, epsilon = 1,
           job_result = None, job_attestation = None, job_error = None \<rparr>],
      1, [])"
  by (simp add: submit_def processJob_def retry_loop.simps rejecting_tee_def analyze_post_def
        maxRetries_def)

end
